theory Spec2Isabelle
  imports Main "HOL-Library.Word"
begin

unbundle bit_operations_syntax

section \<open>Data model\<close>

text \<open>
  The engine of \<^verbatim>\<open>src/io_linux.c\<close> talks to the kernel through two rings in shared
  memory and keeps a caller-provided table of \<^verbatim>\<open>struct io_operation\<close>.  The header
  \<^verbatim>\<open>io.h\<close> is not part of the sources; the records below hold exactly the members the
  C file reads and writes.

  \<^item> \<^verbatim>\<open>unsigned int\<close> and \<^verbatim>\<open>uint32_t\<close> are \<open>32 word\<close>: \<open>+\<close> wraps and \<open>\<le>\<close> is the
    unsigned comparison, as in C.
  \<^item> A pointer, and the \<^verbatim>\<open>uint64_t\<close> it is cast to, is a \<open>64 word\<close>; the casts
    \<^verbatim>\<open>(uint64_t) op\<close> and \<^verbatim>\<open>(void*) cqe->user_data\<close> are the identity on it.
  \<^item> The C \<^verbatim>\<open>int\<close> returned by a system call is an \<open>int\<close>.
\<close>

type_synonym u32 = "32 word"
type_synonym ptr = "64 word"

definition NULL :: ptr where
  "NULL = 0"

datatype io_type = IO_VOID | IO_RECV | IO_SEND | IO_ACCEPT

record io_operation =
  op_user :: ptr
  op_type :: io_type

text \<open>
  \<^verbatim>\<open>struct io_event\<close>.  \<^verbatim>\<open>num\<close> and \<^verbatim>\<open>handle\<close> are only ever assigned a
  non-negative \<^verbatim>\<open>cqe->res\<close>, so they hold the integer value of that result.
\<close>

record io_event =
  ev_user :: ptr
  ev_type :: io_type
  ev_error :: bool
  ev_num :: int
  ev_handle :: int

datatype ioring_op = IORING_OP_NOP | IORING_OP_READ | IORING_OP_WRITE | IORING_OP_ACCEPT

text \<open>
  The members of \<^verbatim>\<open>struct io_uring_sqe\<close> that the file assigns; every other member is
  zero after the \<^verbatim>\<open>memset\<close>.
\<close>

record io_uring_sqe =
  opcode :: ioring_op
  fd :: int
  addr :: ptr
  len :: u32
  user_data :: ptr

text \<open>\<^verbatim>\<open>struct io_uring_cqe\<close>: the tag and the signed 32-bit result (read with \<open>sint\<close>).\<close>

record io_uring_cqe =
  cqe_user_data :: ptr
  res :: u32

text \<open>
  \<^verbatim>\<open>struct io_context\<close> together with the memory it points to.  The members of
  \<^verbatim>\<open>ioc->submissions\<close> and \<^verbatim>\<open>ioc->completions\<close> are pointers into the mapped rings;
  the fields \<open>sq_*\<close> and \<open>cq_*\<close> hold the values stored there.  \<open>op_mem\<close> is the memory
  holding the operation structures: an address with no structure is \<open>None\<close>, and an
  access there is undefined behaviour.
\<close>

record io_context =
  ops :: ptr
  max_ops :: u32
  handle :: int
  sq_head :: u32
  sq_tail :: u32
  sq_mask :: u32
  sq_array :: "u32 list"
  sq_entries :: "io_uring_sqe list"
  sq_limit :: u32
  cq_head :: u32
  cq_tail :: u32
  cq_mask :: u32
  cq_entries :: "io_uring_cqe list"
  cq_limit :: u32
  op_mem :: "ptr \<Rightarrow> io_operation option"

section \<open>The kernel\<close>

text \<open>
  What one \<^verbatim>\<open>io_uring_enter\<close> call answers: its return value and the contents of the
  kernel-written parts of the rings when it returns (the submission head, the completion
  tail and the completion records).  The kernel never writes the engine's side of the
  rings nor the operation table.
\<close>

record kernel_reply =
  k_ret :: int
  k_sq_head :: u32
  k_cq_tail :: u32
  k_cq_entries :: "io_uring_cqe list"

definition io_uring_enter ::
  "kernel_reply \<Rightarrow> int \<Rightarrow> nat \<Rightarrow> nat \<Rightarrow> nat \<Rightarrow> io_context \<Rightarrow> int \<times> io_context" where
  "io_uring_enter k ring_fd to_submit min_complete flags ioc =
     (k_ret k, ioc\<lparr>sq_head := k_sq_head k, cq_tail := k_cq_tail k,
                   cq_entries := k_cq_entries k\<rparr>)"

definition IORING_ENTER_GETEVENTS :: nat where
  "IORING_ENTER_GETEVENTS = 1"

section \<open>Submission path\<close>

text \<open>The refusal test of \<^verbatim>\<open>start_oper\<close>, in unsigned 32-bit arithmetic.\<close>

definition ring_full :: "io_context \<Rightarrow> bool" where
  "ring_full ioc = (sq_tail ioc \<ge> sq_head ioc + sq_limit ioc)"

text \<open>
  \<^verbatim>\<open>start_oper\<close>.  \<open>None\<close> is undefined behaviour: an index outside the mapped arrays.
\<close>

definition start_oper ::
  "kernel_reply \<Rightarrow> io_context \<Rightarrow> io_uring_sqe \<Rightarrow> (bool \<times> io_context) option" where
  "start_oper k ioc sqe =
     (let mask = sq_mask ioc; tail = sq_tail ioc; head = sq_head ioc in
      if tail \<ge> head + sq_limit ioc then Some (False, ioc)
      else
        let index = tail AND mask in
        if unat index \<ge> length (sq_entries ioc) \<or> unat index \<ge> length (sq_array ioc)
        then None
        else
          let ioc1 = ioc\<lparr>sq_entries := (sq_entries ioc)[unat index := sqe]\<rparr>;
              ioc2 = ioc1\<lparr>sq_array := (sq_array ioc1)[unat index := index]\<rparr>;
              ioc3 = ioc2\<lparr>sq_tail := tail + 1\<rparr>;
              (ret, ioc4) = io_uring_enter k (handle ioc3) 1 0 0 ioc3
          in if ret < 0 then Some (False, ioc4) else Some (True, ioc4))"

text \<open>
  \<^verbatim>\<open>&ioc->ops[i]\<close>; \<open>sz\<close> is \<^verbatim>\<open>sizeof(struct io_operation)\<close>, fixed by the absent
  header.
\<close>

definition op_addr :: "ptr \<Rightarrow> io_context \<Rightarrow> nat \<Rightarrow> ptr" where
  "op_addr sz ioc i = ops ioc + of_nat i * sz"

text \<open>
  The loop of \<^verbatim>\<open>alloc_op\<close> from index \<open>i\<close> with \<open>n\<close> iterations left.  The result
  \<open>NULL\<close> is the C null pointer; \<open>None\<close> is a read outside the table memory.
\<close>

fun alloc_from :: "ptr \<Rightarrow> io_context \<Rightarrow> nat \<Rightarrow> nat \<Rightarrow> ptr option" where
  "alloc_from sz ioc i 0 = Some NULL"
| "alloc_from sz ioc i (Suc n) =
     (case op_mem ioc (op_addr sz ioc i) of
        None \<Rightarrow> None
      | Some opn \<Rightarrow>
          if op_type opn = IO_VOID then Some (op_addr sz ioc i)
          else alloc_from sz ioc (Suc i) n)"

definition alloc_op :: "ptr \<Rightarrow> io_context \<Rightarrow> ptr option" where
  "alloc_op sz ioc = alloc_from sz ioc 0 (unat (max_ops ioc))"

text \<open>
  Slot \<open>i\<close> of the table holds an operation that is not idle; the table is full when
  every one of its \<open>max_ops\<close> slots does.
\<close>

definition slot_busy :: "ptr \<Rightarrow> io_context \<Rightarrow> nat \<Rightarrow> bool" where
  "slot_busy sz ioc i =
     (case op_mem ioc (op_addr sz ioc i) of
        None \<Rightarrow> False
      | Some opn \<Rightarrow> op_type opn \<noteq> IO_VOID)"

definition table_full :: "ptr \<Rightarrow> io_context \<Rightarrow> bool" where
  "table_full sz ioc = list_all (slot_busy sz ioc) [0 ..< unat (max_ops ioc)]"

text \<open>The two stores \<^verbatim>\<open>op->user = user; op->type = t\<close> of a typed submit.\<close>

definition commit_op :: "ptr \<Rightarrow> ptr \<Rightarrow> io_type \<Rightarrow> io_context \<Rightarrow> io_context option" where
  "commit_op p usr t ioc =
     (case op_mem ioc p of
        None \<Rightarrow> None
      | Some opn \<Rightarrow>
          Some (ioc\<lparr>op_mem := (op_mem ioc)(p \<mapsto> opn\<lparr>op_user := usr, op_type := t\<rparr>)\<rparr>))"

definition io_start_recv ::
  "ptr \<Rightarrow> kernel_reply \<Rightarrow> io_context \<Rightarrow> int \<Rightarrow> ptr \<Rightarrow> u32 \<Rightarrow> ptr \<Rightarrow> (bool \<times> io_context) option" where
  "io_start_recv sz k ioc hdl dst mx usr =
     (case alloc_op sz ioc of
        None \<Rightarrow> None
      | Some p \<Rightarrow>
          if p = NULL then Some (False, ioc)
          else
            let sqe = \<lparr>opcode = IORING_OP_READ, fd = hdl, addr = dst, len = mx,
                       user_data = p\<rparr>
            in (case start_oper k ioc sqe of
                  None \<Rightarrow> None
                | Some (ok, ioc1) \<Rightarrow>
                    if \<not> ok then Some (False, ioc1)
                    else map_option (Pair True) (commit_op p usr IO_RECV ioc1)))"

definition io_start_send ::
  "ptr \<Rightarrow> kernel_reply \<Rightarrow> io_context \<Rightarrow> int \<Rightarrow> ptr \<Rightarrow> u32 \<Rightarrow> ptr \<Rightarrow> (bool \<times> io_context) option" where
  "io_start_send sz k ioc hdl src num usr =
     (case alloc_op sz ioc of
        None \<Rightarrow> None
      | Some p \<Rightarrow>
          if p = NULL then Some (False, ioc)
          else
            let sqe = \<lparr>opcode = IORING_OP_WRITE, fd = hdl, addr = src, len = num,
                       user_data = p\<rparr>
            in (case start_oper k ioc sqe of
                  None \<Rightarrow> None
                | Some (ok, ioc1) \<Rightarrow>
                    if \<not> ok then Some (False, ioc1)
                    else map_option (Pair True) (commit_op p usr IO_SEND ioc1)))"

definition io_start_accept ::
  "ptr \<Rightarrow> kernel_reply \<Rightarrow> io_context \<Rightarrow> int \<Rightarrow> ptr \<Rightarrow> (bool \<times> io_context) option" where
  "io_start_accept sz k ioc hdl usr =
     (case alloc_op sz ioc of
        None \<Rightarrow> None
      | Some p \<Rightarrow>
          if p = NULL then Some (False, ioc)
          else
            let sqe = \<lparr>opcode = IORING_OP_ACCEPT, fd = hdl, addr = 0, len = 0,
                       user_data = p\<rparr>
            in (case start_oper k ioc sqe of
                  None \<Rightarrow> None
                | Some (ok, ioc1) \<Rightarrow>
                    if \<not> ok then Some (False, ioc1)
                    else map_option (Pair True) (commit_op p usr IO_ACCEPT ioc1)))"

section \<open>Completion path\<close>

text \<open>
  The memory writes of \<^verbatim>\<open>io_wait\<close>, one constructor per assigned location: the members
  of \<^verbatim>\<open>*ev\<close>, the \<^verbatim>\<open>type\<close> member of the operation at an address, and the
  completion head.
\<close>

datatype wait_store =
    Ev_user ptr
  | Ev_type io_type
  | Ev_error bool
  | Ev_num int
  | Ev_handle int
  | Op_type ptr io_type
  | Cq_head u32

fun exec_store :: "wait_store \<Rightarrow> io_context \<times> io_event \<Rightarrow> io_context \<times> io_event" where
  "exec_store (Ev_user u) (ioc, ev) = (ioc, ev\<lparr>ev_user := u\<rparr>)"
| "exec_store (Ev_type t) (ioc, ev) = (ioc, ev\<lparr>ev_type := t\<rparr>)"
| "exec_store (Ev_error e) (ioc, ev) = (ioc, ev\<lparr>ev_error := e\<rparr>)"
| "exec_store (Ev_num n) (ioc, ev) = (ioc, ev\<lparr>ev_num := n\<rparr>)"
| "exec_store (Ev_handle h) (ioc, ev) = (ioc, ev\<lparr>ev_handle := h\<rparr>)"
| "exec_store (Op_type p t) (ioc, ev) =
     (case op_mem ioc p of
        None \<Rightarrow> (ioc, ev)
      | Some opn \<Rightarrow> (ioc\<lparr>op_mem := (op_mem ioc)(p \<mapsto> opn\<lparr>op_type := t\<rparr>)\<rparr>, ev))"
| "exec_store (Cq_head h) (ioc, ev) = (ioc\<lparr>cq_head := h\<rparr>, ev)"

text \<open>The stores are executed from left to right.\<close>

fun run_stores :: "wait_store list \<Rightarrow> io_context \<times> io_event \<Rightarrow> io_context \<times> io_event" where
  "run_stores [] s = s"
| "run_stores (w # ws) s = run_stores ws (exec_store w s)"

text \<open>
  The \<^verbatim>\<open>switch (op->type)\<close> of \<^verbatim>\<open>io_wait\<close>, with \<open>r\<close> the value of
  \<^verbatim>\<open>cqe->res\<close>.
\<close>

definition result_stores :: "io_type \<Rightarrow> int \<Rightarrow> wait_store list" where
  "result_stores t r =
     (case t of
        IO_VOID \<Rightarrow> []
      | IO_RECV \<Rightarrow> [Ev_num r]
      | IO_SEND \<Rightarrow> [Ev_num r]
      | IO_ACCEPT \<Rightarrow> [Ev_handle r])"

text \<open>
  Lines 237 to 259 of \<^verbatim>\<open>io_wait\<close>: the stores it performs, in program order, once the
  completion ring is known to hold a record at \<open>head\<close>.  \<open>None\<close> is undefined behaviour:
  the record lies outside the mapped array, or its tag is not the address of an
  operation structure.
\<close>

definition io_wait_stores :: "io_context \<Rightarrow> u32 \<Rightarrow> wait_store list option" where
  "io_wait_stores ioc head =
     (let index = unat (head AND cq_mask ioc) in
      if index \<ge> length (cq_entries ioc) then None
      else
        let cqe = cq_entries ioc ! index;
            p = cqe_user_data cqe
        in (case op_mem ioc p of
              None \<Rightarrow> None
            | Some opn \<Rightarrow>
                Some ([Ev_user (op_user opn), Ev_type (op_type opn),
                       Ev_error (sint (res cqe) < 0)]
                      @ (if (sint (res cqe) < 0) = False
                         then result_stores (op_type opn) (sint (res cqe))
                         else [])
                      @ [Op_type p IO_VOID, Cq_head (head + 1)])))"

text \<open>
  \<^verbatim>\<open>io_wait\<close> up to its stores: the state the stores run in (after the blocking call,
  when there is one) and the stores.
\<close>

definition io_wait_plan ::
  "kernel_reply \<Rightarrow> io_context \<Rightarrow> (io_context \<times> wait_store list) option" where
  "io_wait_plan k ioc =
     (let head = cq_head ioc; tail = cq_tail ioc in
      if head = tail then
        (let (ret, ioc1) = io_uring_enter k (handle ioc) 0 1 IORING_ENTER_GETEVENTS ioc in
         if ret < 0 then Some (ioc1, [Ev_error True])
         else map_option (Pair ioc1) (io_wait_stores ioc1 head))
      else map_option (Pair ioc) (io_wait_stores ioc head))"

definition io_wait ::
  "kernel_reply \<Rightarrow> io_context \<Rightarrow> io_event \<Rightarrow> (io_context \<times> io_event) option" where
  "io_wait k ioc ev =
     map_option (\<lambda>(ioc1, ws). run_stores ws (ioc1, ev)) (io_wait_plan k ioc)"

text \<open>
  \<^verbatim>\<open>io_wait\<close> makes its blocking call when the completion ring looks empty; the wait
  fails when that call does.  \<open>wait_state\<close> is the memory in which \<^verbatim>\<open>io_wait\<close> reads
  the completion record (after the blocking call, when there is one) and \<open>wait_cqe\<close> the
  record it reads there, at \<open>head & mask\<close>.
\<close>

definition wait_failed :: "kernel_reply \<Rightarrow> io_context \<Rightarrow> bool" where
  "wait_failed k ioc = (cq_head ioc = cq_tail ioc \<and> k_ret k < 0)"

definition wait_state :: "kernel_reply \<Rightarrow> io_context \<Rightarrow> io_context" where
  "wait_state k ioc =
     (if cq_head ioc = cq_tail ioc
      then snd (io_uring_enter k (handle ioc) 0 1 IORING_ENTER_GETEVENTS ioc)
      else ioc)"

definition wait_cqe :: "kernel_reply \<Rightarrow> io_context \<Rightarrow> io_uring_cqe option" where
  "wait_cqe k ioc =
     (let s = wait_state k ioc;
          i = unat (cq_head ioc AND cq_mask s)
      in if i < length (cq_entries s) then Some (cq_entries s ! i) else None)"

section \<open>Setup\<close>

text \<open>
  \<^verbatim>\<open>struct io_uring_params\<close> as the kernel fills it: the granted entry counts, the
  feature bits and the offsets of the ring members inside the mappings.
\<close>

record io_uring_params =
  p_sq_entries :: u32
  p_cq_entries :: u32
  p_features :: u32
  sq_off_head :: u32
  sq_off_tail :: u32
  sq_off_ring_mask :: u32
  sq_off_array :: u32
  cq_off_head :: u32
  cq_off_tail :: u32
  cq_off_ring_mask :: u32
  cq_off_cqes :: u32

text \<open>Constants of the kernel interface (\<^verbatim>\<open>linux/io_uring.h\<close>, \<^verbatim>\<open>sys/mman.h\<close>).\<close>

definition IORING_FEAT_SINGLE_MMAP :: u32 where
  "IORING_FEAT_SINGLE_MMAP = 1"

definition MAP_FAILED :: ptr where
  "MAP_FAILED = - 1"

datatype ring_off = IORING_OFF_SQ_RING | IORING_OFF_CQ_RING | IORING_OFF_SQES

definition sizeof_unsigned :: nat where
  "sizeof_unsigned = 4"

definition sizeof_cqe :: nat where
  "sizeof_cqe = 16"

definition sizeof_sqe :: nat where
  "sizeof_sqe = 64"

text \<open>
  The resources of the process that the setup code acquires: open ring descriptors and
  live memory mappings.
\<close>

record mapping =
  m_addr :: ptr
  m_len :: "64 word"
  m_fd :: int
  m_off :: ring_off

record os_state =
  fds :: "int list"
  maps :: "mapping list"

text \<open>
  What the operating system answers to the calls of \<^verbatim>\<open>io_context_init\<close>: the result
  of \<^verbatim>\<open>io_uring_setup\<close> with the parameters it fills in, and the result of each of the
  three \<^verbatim>\<open>mmap\<close> calls (\<open>MAP_FAILED\<close> on failure).
\<close>

record os_reply =
  r_fd :: int
  r_params :: io_uring_params
  r_sq_ptr :: ptr
  r_cq_ptr :: ptr
  r_sqes_ptr :: ptr

text \<open>\<^verbatim>\<open>io_uring_setup\<close>: a non-negative result is a new open descriptor.\<close>

definition io_uring_setup ::
  "os_reply \<Rightarrow> u32 \<Rightarrow> io_uring_params \<Rightarrow> os_state \<Rightarrow> int \<times> io_uring_params \<times> os_state" where
  "io_uring_setup r entries p os =
     (if r_fd r < 0 then (r_fd r, p, os)
      else (r_fd r, r_params r, os\<lparr>fds := r_fd r # fds os\<rparr>))"

text \<open>\<^verbatim>\<open>mmap\<close>: a result other than \<open>MAP_FAILED\<close> is a new mapping.\<close>

definition mmap ::
  "ptr \<Rightarrow> 64 word \<Rightarrow> int \<Rightarrow> ring_off \<Rightarrow> os_state \<Rightarrow> ptr \<times> os_state" where
  "mmap answer length_arg fd_arg off os =
     (if answer = MAP_FAILED then (MAP_FAILED, os)
      else (answer,
            os\<lparr>maps := maps os @
               [\<lparr>m_addr = answer, m_len = length_arg, m_fd = fd_arg, m_off = off\<rparr>]\<rparr>))"

text \<open>\<^verbatim>\<open>close\<close> of a descriptor, as \<^verbatim>\<open>io_context_free\<close> calls it.\<close>

definition close_fd :: "int \<Rightarrow> os_state \<Rightarrow> os_state" where
  "close_fd d os = os\<lparr>fds := removeAll d (fds os)\<rparr>"

text \<open>
  The members of \<^verbatim>\<open>struct io_context\<close> as \<^verbatim>\<open>io_context_init\<close> stores them: the
  ring members are addresses inside the mappings.
\<close>

record io_context_ptrs =
  c_ops :: ptr
  c_max_ops :: u32
  c_handle :: int
  c_sq_head :: ptr
  c_sq_tail :: ptr
  c_sq_mask :: ptr
  c_sq_array :: ptr
  c_sq_limit :: u32
  c_sq_entries :: ptr
  c_cq_head :: ptr
  c_cq_tail :: ptr
  c_cq_mask :: ptr
  c_cq_entries :: ptr
  c_cq_limit :: u32

text \<open>
  The conversion of a \<^verbatim>\<open>size_t\<close> value to \<^verbatim>\<open>int\<close> (it keeps the low 32 bits, read as
  two's complement) and of an \<^verbatim>\<open>int\<close> to the \<^verbatim>\<open>size_t\<close> length argument of
  \<^verbatim>\<open>mmap\<close>.
\<close>

definition int_of_size :: "nat \<Rightarrow> int" where
  "int_of_size n = signed_take_bit 31 (int n)"

definition size_of_int :: "int \<Rightarrow> 64 word" where
  "size_of_int i = word_of_int i"

text \<open>The loop \<^verbatim>\<open>ioc->ops[i].type = IO_VOID\<close> from index \<open>i\<close>, \<open>n\<close> iterations left.\<close>

fun clear_ops ::
  "ptr \<Rightarrow> ptr \<Rightarrow> (ptr \<Rightarrow> io_operation option) \<Rightarrow> nat \<Rightarrow> nat \<Rightarrow> (ptr \<Rightarrow> io_operation option) option"
  where
  "clear_ops sz base mem i 0 = Some mem"
| "clear_ops sz base mem i (Suc n) =
     (case mem (base + of_nat i * sz) of
        None \<Rightarrow> None
      | Some opn \<Rightarrow>
          clear_ops sz base (mem(base + of_nat i * sz \<mapsto> opn\<lparr>op_type := IO_VOID\<rparr>)) (Suc i) n)"

text \<open>
  The two ring sizes as lines 53 to 64 compute them: \<^verbatim>\<open>int\<close> variables, the larger
  one for both when the kernel reports \<^verbatim>\<open>IORING_FEAT_SINGLE_MMAP\<close>.
\<close>

definition single_mmap :: "io_uring_params \<Rightarrow> bool" where
  "single_mmap p = (p_features p AND IORING_FEAT_SINGLE_MMAP \<noteq> 0)"

definition ring_sizes :: "io_uring_params \<Rightarrow> int \<times> int" where
  "ring_sizes p =
     (let sring_sz = int_of_size (unat (sq_off_array p) + unat (p_sq_entries p) * sizeof_unsigned);
          cring_sz = int_of_size (unat (cq_off_cqes p) + unat (p_cq_entries p) * sizeof_cqe)
      in if single_mmap p
         then (let sring_sz1 = (if cring_sz > sring_sz then cring_sz else sring_sz)
               in (sring_sz1, sring_sz1))
         else (sring_sz, cring_sz))"

text \<open>
  \<^verbatim>\<open>io_context_init\<close>.  The result holds the returned flag, the context as far as it
  was filled in, the table memory and the resources of the process.  \<open>None\<close> is a write
  outside the table memory in the clearing loop.
\<close>

definition io_context_init ::
  "ptr \<Rightarrow> os_reply \<Rightarrow> os_state \<Rightarrow> (ptr \<Rightarrow> io_operation option) \<Rightarrow> io_context_ptrs \<Rightarrow>
   ptr \<Rightarrow> u32 \<Rightarrow>
   (bool \<times> io_context_ptrs \<times> (ptr \<Rightarrow> io_operation option) \<times> os_state) option" where
  "io_context_init sz r os mem ioc ops_arg max_ops_arg =
     (let ioc1 = ioc\<lparr>c_ops := ops_arg, c_max_ops := max_ops_arg\<rparr> in
      case clear_ops sz ops_arg mem 0 (unat max_ops_arg) of
        None \<Rightarrow> None
      | Some mem1 \<Rightarrow>
         (let p0 = \<lparr>p_sq_entries = 0, p_cq_entries = 0, p_features = 0,
                    sq_off_head = 0, sq_off_tail = 0, sq_off_ring_mask = 0, sq_off_array = 0,
                    cq_off_head = 0, cq_off_tail = 0, cq_off_ring_mask = 0, cq_off_cqes = 0\<rparr>;
              (fd1, p, os1) = io_uring_setup r 32 p0 os
          in if fd1 < 0 then Some (False, ioc1, mem1, os1)
             else
              (let ioc2 = ioc1\<lparr>c_handle := fd1\<rparr>;
                   (sring_sz, cring_sz) = ring_sizes p;
                   (sq_ptr, os2) = mmap (r_sq_ptr r) (size_of_int sring_sz) fd1 IORING_OFF_SQ_RING os1
               in if sq_ptr = MAP_FAILED then Some (False, ioc2, mem1, os2)
                  else
                   (let (cq_ptr, os3) =
                          (if single_mmap p then (sq_ptr, os2)
                           else mmap (r_cq_ptr r) (size_of_int cring_sz) fd1 IORING_OFF_CQ_RING os2)
                    in if \<not> single_mmap p \<and> cq_ptr = MAP_FAILED then Some (False, ioc2, mem1, os3)
                       else
                        (let ioc3 = ioc2\<lparr>c_sq_head := sq_ptr + ucast (sq_off_head p),
                                          c_sq_tail := sq_ptr + ucast (sq_off_tail p),
                                          c_sq_mask := sq_ptr + ucast (sq_off_ring_mask p),
                                          c_sq_array := sq_ptr + ucast (sq_off_array p),
                                          c_sq_limit := p_sq_entries p\<rparr>;
                             (sqes, os4) =
                                mmap (r_sqes_ptr r) (of_nat (unat (p_sq_entries p) * sizeof_sqe))
                                  fd1 IORING_OFF_SQES os3;
                             ioc4 = ioc3\<lparr>c_sq_entries := sqes\<rparr>
                         in if sqes = MAP_FAILED then Some (False, ioc4, mem1, os4)
                            else Some (True,
                                       ioc4\<lparr>c_cq_head := cq_ptr + ucast (cq_off_head p),
                                            c_cq_tail := cq_ptr + ucast (cq_off_tail p),
                                            c_cq_mask := cq_ptr + ucast (cq_off_ring_mask p),
                                            c_cq_entries := cq_ptr + ucast (cq_off_cqes p),
                                            c_cq_limit := p_cq_entries p\<rparr>,
                                       mem1, os4))))))"

text \<open>\<^verbatim>\<open>io_context_free\<close> closes the ring descriptor and nothing else.\<close>

definition io_context_free :: "io_context_ptrs \<Rightarrow> os_state \<Rightarrow> os_state" where
  "io_context_free ioc os = close_fd (c_handle ioc) os"

section \<open>Concrete states\<close>

text \<open>
  A table of two slots of 16 bytes at address \<open>0x1000\<close>, a submission ring of four
  entries and a completion ring of eight.  In \<open>ex_ioc\<close> slot 0 holds an outstanding
  receive whose completion record (5 bytes read) is at the completion head, and slot 1 is
  idle.
\<close>

definition ex_sqe0 :: io_uring_sqe where
  "ex_sqe0 = \<lparr>opcode = IORING_OP_NOP, fd = 0, addr = 0, len = 0, user_data = 0\<rparr>"

definition ex_cqe0 :: io_uring_cqe where
  "ex_cqe0 = \<lparr>cqe_user_data = 0x1000, res = 5\<rparr>"

definition ex_ioc :: io_context where
  "ex_ioc =
     \<lparr>ops = 0x1000, max_ops = 2, handle = 3,
      sq_head = 0, sq_tail = 1, sq_mask = 3, sq_array = [0, 0, 0, 0],
      sq_entries = [ex_sqe0, ex_sqe0, ex_sqe0, ex_sqe0], sq_limit = 4,
      cq_head = 0, cq_tail = 1, cq_mask = 7,
      cq_entries = [ex_cqe0, ex_cqe0, ex_cqe0, ex_cqe0, ex_cqe0, ex_cqe0, ex_cqe0, ex_cqe0],
      cq_limit = 8,
      op_mem = [0x1000 \<mapsto> \<lparr>op_user = 0xA, op_type = IO_RECV\<rparr>,
                0x1010 \<mapsto> \<lparr>op_user = 0, op_type = IO_VOID\<rparr>]\<rparr>"

text \<open>Both slots taken; the ring holding four unconsumed entries; an empty completion ring.\<close>

definition ex_table_full :: io_context where
  "ex_table_full =
     ex_ioc\<lparr>op_mem := [0x1000 \<mapsto> \<lparr>op_user = 0xA, op_type = IO_RECV\<rparr>,
                        0x1010 \<mapsto> \<lparr>op_user = 0xB, op_type = IO_SEND\<rparr>]\<rparr>"

definition ex_ring_full :: io_context where
  "ex_ring_full = ex_ioc\<lparr>sq_tail := 4\<rparr>"

definition ex_cq_empty :: io_context where
  "ex_cq_empty = ex_ioc\<lparr>cq_tail := 0\<rparr>"

text \<open>Slot 0 holds an accept whose completion record carries the result \<open>-11\<close>.\<close>

definition ex_accept_failed :: io_context where
  "ex_accept_failed =
     ex_ioc\<lparr>cq_entries := (cq_entries ex_ioc)[0 := \<lparr>cqe_user_data = 0x1000, res = - 11\<rparr>],
            op_mem := [0x1000 \<mapsto> \<lparr>op_user = 0xA, op_type = IO_ACCEPT\<rparr>,
                       0x1010 \<mapsto> \<lparr>op_user = 0, op_type = IO_VOID\<rparr>]\<rparr>"

text \<open>A kernel call that succeeds without touching the rings, and one that fails.\<close>

definition ex_k_ok :: kernel_reply where
  "ex_k_ok = \<lparr>k_ret = 1, k_sq_head = 0, k_cq_tail = 1, k_cq_entries = cq_entries ex_ioc\<rparr>"

definition ex_k_fail :: kernel_reply where
  "ex_k_fail = \<lparr>k_ret = - 1, k_sq_head = 0, k_cq_tail = 0, k_cq_entries = cq_entries ex_ioc\<rparr>"

definition ex_ev :: io_event where
  "ex_ev = \<lparr>ev_user = 0, ev_type = IO_VOID, ev_error = False, ev_num = 0, ev_handle = 77\<rparr>"

text \<open>
  Answers of the operating system to \<^verbatim>\<open>io_context_init\<close>: descriptor 3, 32 submission
  and 64 completion entries, the single-mapping feature, and the ring offsets of a
  current kernel.  In the variants the kernel does not report the feature, or one of the
  \<^verbatim>\<open>mmap\<close> calls fails.
\<close>

definition ex_params :: io_uring_params where
  "ex_params =
     \<lparr>p_sq_entries = 32, p_cq_entries = 64, p_features = 1,
      sq_off_head = 0, sq_off_tail = 64, sq_off_ring_mask = 256, sq_off_array = 1344,
      cq_off_head = 128, cq_off_tail = 192, cq_off_ring_mask = 260, cq_off_cqes = 320\<rparr>"

definition ex_reply :: os_reply where
  "ex_reply =
     \<lparr>r_fd = 3, r_params = ex_params, r_sq_ptr = 0x7F0000000000,
      r_cq_ptr = 0x7F0000010000, r_sqes_ptr = 0x7F0000020000\<rparr>"

definition ex_reply_two_maps :: os_reply where
  "ex_reply_two_maps = ex_reply\<lparr>r_params := ex_params\<lparr>p_features := 0\<rparr>\<rparr>"

definition ex_reply_sq_fails :: os_reply where
  "ex_reply_sq_fails = ex_reply\<lparr>r_sq_ptr := MAP_FAILED\<rparr>"

definition ex_reply_cq_fails :: os_reply where
  "ex_reply_cq_fails = ex_reply_two_maps\<lparr>r_cq_ptr := MAP_FAILED\<rparr>"

definition ex_reply_sqes_fails :: os_reply where
  "ex_reply_sqes_fails = ex_reply\<lparr>r_sqes_ptr := MAP_FAILED\<rparr>"

definition ex_os :: os_state where
  "ex_os = \<lparr>fds = [], maps = []\<rparr>"

definition ex_ptrs :: io_context_ptrs where
  "ex_ptrs =
     \<lparr>c_ops = 0, c_max_ops = 0, c_handle = 0,
      c_sq_head = 0, c_sq_tail = 0, c_sq_mask = 0, c_sq_array = 0, c_sq_limit = 0,
      c_sq_entries = 0,
      c_cq_head = 0, c_cq_tail = 0, c_cq_mask = 0, c_cq_entries = 0, c_cq_limit = 0\<rparr>"

text \<open>What is left acquired after a call of \<^verbatim>\<open>io_context_init\<close>, with its result.\<close>

definition init_outcome ::
  "(bool \<times> io_context_ptrs \<times> (ptr \<Rightarrow> io_operation option) \<times> os_state) option \<Rightarrow>
   (bool \<times> int list \<times> (ptr \<times> 64 word \<times> ring_off) list) option" where
  "init_outcome r =
     map_option (\<lambda>(ok, ioc, mem, os).
                   (ok, fds os, map (\<lambda>m. (m_addr m, m_len m, m_off m)) (maps os))) r"

text \<open>
  A fresh ring of 32 entries, and a run of submissions in which the kernel consumes each
  entry during the notify call that publishes it, so that \<open>head\<close> follows \<open>tail\<close> in
  lockstep: \<open>consumed_reply\<close> is the answer of such a call, \<open>submit_cycles n\<close> the state
  after \<open>n\<close> accepted submissions (\<open>None\<close> as soon as one is refused).
\<close>

definition ex_ring32 :: io_context where
  "ex_ring32 =
     ex_ioc\<lparr>sq_head := 0, sq_tail := 0, sq_mask := 31, sq_limit := 32,
            sq_array := replicate 32 0, sq_entries := replicate 32 ex_sqe0\<rparr>"

definition consumed_reply :: "io_context \<Rightarrow> kernel_reply" where
  "consumed_reply ioc =
     \<lparr>k_ret = 1, k_sq_head = sq_tail ioc + 1, k_cq_tail = cq_tail ioc,
      k_cq_entries = cq_entries ioc\<rparr>"

fun submit_cycles :: "nat \<Rightarrow> io_context \<Rightarrow> io_context option" where
  "submit_cycles 0 ioc = Some ioc"
| "submit_cycles (Suc n) ioc =
     (case start_oper (consumed_reply ioc) ioc ex_sqe0 of
        None \<Rightarrow> None
      | Some (ok, ioc1) \<Rightarrow> if ok then submit_cycles n ioc1 else None)"

section \<open>Properties of the submission path\<close>

lemma start_oper_full:
  "ring_full ioc \<Longrightarrow> start_oper k ioc sqe = Some (False, ioc)"
  by (simp add: start_oper_def ring_full_def)

lemma start_oper_op_mem:
  "start_oper k ioc sqe = Some (ok, ioc1) \<Longrightarrow> op_mem ioc1 = op_mem ioc"
  by (auto simp: start_oper_def io_uring_enter_def Let_def split: if_splits)

lemma start_oper_written:
  assumes "\<not> ring_full ioc"
    and "unat (sq_tail ioc AND sq_mask ioc) < length (sq_entries ioc)"
    and "unat (sq_tail ioc AND sq_mask ioc) < length (sq_array ioc)"
  shows "start_oper k ioc sqe =
           Some (\<not> k_ret k < 0,
                 ioc\<lparr>sq_entries := (sq_entries ioc)[unat (sq_tail ioc AND sq_mask ioc) := sqe],
                      sq_array := (sq_array ioc)[unat (sq_tail ioc AND sq_mask ioc) :=
                                                  sq_tail ioc AND sq_mask ioc],
                      sq_tail := sq_tail ioc + 1,
                      sq_head := k_sq_head k, cq_tail := k_cq_tail k,
                      cq_entries := k_cq_entries k\<rparr>)"
  using assms by (simp add: start_oper_def ring_full_def io_uring_enter_def Let_def)

lemma alloc_from_busy:
  "list_all (slot_busy sz ioc) [i ..< i + n] \<Longrightarrow> alloc_from sz ioc i n = Some NULL"
proof (induction n arbitrary: i)
  case 0
  then show ?case by simp
next
  case (Suc n)
  have split: "[i ..< i + Suc n] = i # [Suc i ..< Suc i + n]"
    by (simp add: upt_conv_Cons del: upt_Suc)
  from Suc.prems have here: "slot_busy sz ioc i"
    and rest: "list_all (slot_busy sz ioc) [Suc i ..< Suc i + n]"
    unfolding split by simp_all
  from here obtain opn where "op_mem ioc (op_addr sz ioc i) = Some opn" "op_type opn \<noteq> IO_VOID"
    by (auto simp: slot_busy_def split: option.splits)
  with Suc.IH [OF rest] show ?case by simp
qed

lemma alloc_op_table_full:
  "table_full sz ioc \<Longrightarrow> alloc_op sz ioc = Some NULL"
  using alloc_from_busy [of sz ioc 0 "unat (max_ops ioc)"]
  by (simp add: table_full_def alloc_op_def)

lemma alloc_from_idle:
  "alloc_from sz ioc i n = Some p \<Longrightarrow> p \<noteq> NULL \<Longrightarrow>
   \<exists>j opn. i \<le> j \<and> j < i + n \<and> p = op_addr sz ioc j \<and> op_mem ioc p = Some opn \<and> op_type opn = IO_VOID"
proof (induction n arbitrary: i)
  case 0
  then show ?case by simp
next
  case (Suc n)
  show ?case
  proof (cases "op_mem ioc (op_addr sz ioc i)")
    case None
    with Suc.prems show ?thesis by simp
  next
    case (Some opn)
    show ?thesis
    proof (cases "op_type opn = IO_VOID")
      case True
      with Some Suc.prems have "p = op_addr sz ioc i" by simp
      with Some True show ?thesis by (intro exI [of _ i] exI [of _ opn]) simp
    next
      case False
      with Some Suc.prems have "alloc_from sz ioc (Suc i) n = Some p" by simp
      from Suc.IH [OF this Suc.prems(2)] obtain j opn' where
        "Suc i \<le> j" "j < Suc i + n" "p = op_addr sz ioc j" "op_mem ioc p = Some opn'"
        "op_type opn' = IO_VOID" by blast
      then show ?thesis by (intro exI [of _ j] exI [of _ opn']) simp
    qed
  qed
qed

lemma alloc_op_idle:
  "alloc_op sz ioc = Some p \<Longrightarrow> p \<noteq> NULL \<Longrightarrow>
   \<exists>j opn. j < unat (max_ops ioc) \<and> p = op_addr sz ioc j \<and> op_mem ioc p = Some opn \<and> op_type opn = IO_VOID"
  using alloc_from_idle [of sz ioc 0 "unat (max_ops ioc)" p]
  by (auto simp: alloc_op_def)

text \<open>
  C2.  A typed submit that admission control refuses, because no table slot is idle or
  because the ring-full test \<open>tail \<ge> head + capacity\<close> holds, returns false and leaves
  the whole state as it was: the submission tail, index array and descriptor array, and
  every slot of the operation table.
\<close>

theorem refused_submit_mutates_nothing:
  assumes "table_full sz ioc \<or> (\<exists>p. alloc_op sz ioc = Some p) \<and> ring_full ioc"
  shows "io_start_recv sz k ioc hdl buf n usr = Some (False, ioc)
       \<and> io_start_send sz k ioc hdl buf n usr = Some (False, ioc)
       \<and> io_start_accept sz k ioc hdl usr = Some (False, ioc)"
  using assms
  by (auto simp: io_start_recv_def io_start_send_def io_start_accept_def
                 alloc_op_table_full start_oper_full)

theorem refused_submit_mutates_nothing_witness:
  "table_full 16 ex_table_full \<and> \<not> ring_full ex_table_full
   \<and> io_start_recv 16 ex_k_ok ex_table_full 5 0x2000 100 0xC = Some (False, ex_table_full)
   \<and> io_start_accept 16 ex_k_ok ex_table_full 5 0xC = Some (False, ex_table_full)
   \<and> \<not> table_full 16 ex_ring_full \<and> ring_full ex_ring_full
   \<and> io_start_send 16 ex_k_ok ex_ring_full 5 0x2000 100 0xC = Some (False, ex_ring_full)"
proof -
  have tf: "table_full 16 ex_table_full" and nrf: "\<not> ring_full ex_table_full"
    and ntf: "\<not> table_full 16 ex_ring_full" and rf: "ring_full ex_ring_full"
    and al: "alloc_op 16 ex_ring_full = Some 0x1010"
    by code_simp+
  from tf have h1: "table_full 16 ex_table_full
      \<or> (\<exists>p. alloc_op 16 ex_table_full = Some p) \<and> ring_full ex_table_full" by simp
  from al rf have h2: "table_full 16 ex_ring_full
      \<or> (\<exists>p. alloc_op 16 ex_ring_full = Some p) \<and> ring_full ex_ring_full" by simp
  from refused_submit_mutates_nothing [OF h1, of ex_k_ok 5 "0x2000" 100 "0xC"]
       refused_submit_mutates_nothing [OF h2, of ex_k_ok 5 "0x2000" 100 "0xC"]
       tf nrf ntf rf
  show ?thesis by simp
qed


text \<open>
  What a typed submit does once a slot \<open>p\<close> is allocated, in terms of the outcome of
  \<^verbatim>\<open>start_oper\<close>: the flag is passed on, and the two stores into the slot happen
  only when it is true.
\<close>

lemma typed_submit_after_alloc:
  assumes "alloc_op sz ioc = Some p" and "p \<noteq> NULL"
    and "start_oper k ioc sqe = Some (ok, ioc1)"
  shows "\<exists>opn. op_mem ioc p = Some opn \<and> op_type opn = IO_VOID
           \<and> op_mem ioc1 = op_mem ioc
           \<and> (case start_oper k ioc sqe of
                 None \<Rightarrow> None
               | Some (ok, ioc1) \<Rightarrow>
                   if \<not> ok then Some (False, ioc1)
                   else map_option (Pair True) (commit_op p usr t ioc1))
             = Some (ok, if ok
                         then ioc1\<lparr>op_mem := (op_mem ioc)(p \<mapsto> opn\<lparr>op_user := usr, op_type := t\<rparr>)\<rparr>
                         else ioc1)"
proof -
  from alloc_op_idle [OF assms(1,2)] obtain opn where
    idle: "op_mem ioc p = Some opn" "op_type opn = IO_VOID" by blast
  from start_oper_op_mem [OF assms(3)] have same: "op_mem ioc1 = op_mem ioc" .
  from idle same assms(3) show ?thesis
    by (intro exI [of _ opn]) (simp add: commit_op_def)
qed

text \<open>
  C3.  In each typed submit the allocated slot \<open>p\<close> is idle when \<^verbatim>\<open>start_oper\<close>
  returns (the operation table is as it was before the call).  The submit returns the flag
  of \<^verbatim>\<open>start_oper\<close>; the slot gets its kind and context only when that flag is true, and
  when it is false the table is unchanged and the slot idle.
\<close>

theorem slot_committed_only_after_ring_write:
  assumes "alloc_op sz ioc = Some p" and "p \<noteq> NULL"
  shows "\<exists>opn. op_mem ioc p = Some opn \<and> op_type opn = IO_VOID
     \<and> (\<forall>ok ioc1.
           start_oper k ioc \<lparr>opcode = IORING_OP_READ, fd = hdl, addr = buf, len = n,
                             user_data = p\<rparr> = Some (ok, ioc1) \<longrightarrow>
           op_mem ioc1 = op_mem ioc
           \<and> io_start_recv sz k ioc hdl buf n usr =
               Some (ok, if ok
                         then ioc1\<lparr>op_mem := (op_mem ioc)(p \<mapsto> opn\<lparr>op_user := usr, op_type := IO_RECV\<rparr>)\<rparr>
                         else ioc1))
     \<and> (\<forall>ok ioc1.
           start_oper k ioc \<lparr>opcode = IORING_OP_WRITE, fd = hdl, addr = buf, len = n,
                             user_data = p\<rparr> = Some (ok, ioc1) \<longrightarrow>
           op_mem ioc1 = op_mem ioc
           \<and> io_start_send sz k ioc hdl buf n usr =
               Some (ok, if ok
                         then ioc1\<lparr>op_mem := (op_mem ioc)(p \<mapsto> opn\<lparr>op_user := usr, op_type := IO_SEND\<rparr>)\<rparr>
                         else ioc1))
     \<and> (\<forall>ok ioc1.
           start_oper k ioc \<lparr>opcode = IORING_OP_ACCEPT, fd = hdl, addr = 0, len = 0,
                             user_data = p\<rparr> = Some (ok, ioc1) \<longrightarrow>
           op_mem ioc1 = op_mem ioc
           \<and> io_start_accept sz k ioc hdl usr =
               Some (ok, if ok
                         then ioc1\<lparr>op_mem := (op_mem ioc)(p \<mapsto> opn\<lparr>op_user := usr, op_type := IO_ACCEPT\<rparr>)\<rparr>
                         else ioc1))"
proof -
  from alloc_op_idle [OF assms] obtain opn where
    idle: "op_mem ioc p = Some opn" "op_type opn = IO_VOID" by blast
  have step: "op_mem ioc1 = op_mem ioc
       \<and> (case start_oper k ioc sqe of
             None \<Rightarrow> None
           | Some (ok, ioc1) \<Rightarrow>
               if \<not> ok then Some (False, ioc1)
               else map_option (Pair True) (commit_op p usr t ioc1))
         = Some (ok, if ok
                     then ioc1\<lparr>op_mem := (op_mem ioc)(p \<mapsto> opn\<lparr>op_user := usr, op_type := t\<rparr>)\<rparr>
                     else ioc1)"
    if "start_oper k ioc sqe = Some (ok, ioc1)" for sqe ok ioc1 t
    using typed_submit_after_alloc [OF assms that, of usr t] idle by auto
  show ?thesis
    using idle assms step
    by (intro exI [of _ opn]) (simp add: io_start_recv_def io_start_send_def io_start_accept_def)
qed


theorem slot_committed_only_after_ring_write_witness:
  "alloc_op 16 ex_ioc = Some 0x1010 \<and> (0x1010 :: ptr) \<noteq> NULL
   \<and> map_option fst (start_oper ex_k_fail ex_ioc
        \<lparr>opcode = IORING_OP_READ, fd = 5, addr = 0x2000, len = 100, user_data = 0x1010\<rparr>)
      = Some False
   \<and> map_option (\<lambda>r. (fst r, op_mem (snd r) 0x1010))
        (io_start_recv 16 ex_k_fail ex_ioc 5 0x2000 100 0xC)
      = Some (False, Some \<lparr>op_user = 0, op_type = IO_VOID\<rparr>)
   \<and> map_option (\<lambda>r. (fst r, op_mem (snd r) 0x1010))
        (io_start_recv 16 ex_k_ok ex_ioc 5 0x2000 100 0xC)
      = Some (True, Some \<lparr>op_user = 0xC, op_type = IO_RECV\<rparr>)"
proof -
  let ?sqe = "\<lparr>opcode = IORING_OP_READ, fd = 5, addr = 0x2000, len = 100,
               user_data = 0x1010 :: ptr\<rparr>"
  have al: "alloc_op 16 ex_ioc = Some 0x1010" by code_simp
  have nn: "(0x1010 :: ptr) \<noteq> NULL" by (simp add: NULL_def)
  have idle: "op_mem ex_ioc 0x1010 = Some \<lparr>op_user = 0, op_type = IO_VOID\<rparr>"
    by (simp add: ex_ioc_def)
  have room: "\<not> ring_full ex_ioc"
    and r1: "unat (sq_tail ex_ioc AND sq_mask ex_ioc) < length (sq_entries ex_ioc)"
    and r2: "unat (sq_tail ex_ioc AND sq_mask ex_ioc) < length (sq_array ex_ioc)"
    by code_simp+
  have kf: "(\<not> k_ret ex_k_fail < 0) = False" and ko: "(\<not> k_ret ex_k_ok < 0) = True"
    by (simp_all add: ex_k_fail_def ex_k_ok_def)
  note sf = start_oper_written [OF room r1 r2, of ex_k_fail ?sqe, unfolded kf]
  note so = start_oper_written [OF room r1 r2, of ex_k_ok ?sqe, unfolded ko]
  from slot_committed_only_after_ring_write [OF al nn, of ex_k_fail 5 "0x2000" 100 "0xC"]
       slot_committed_only_after_ring_write [OF al nn, of ex_k_ok 5 "0x2000" 100 "0xC"]
  show ?thesis
    using al nn idle sf so by auto
qed


text \<open>
  C10.  When a slot is allocated, the ring-full test fails and the notify call then
  fails, each typed submit returns false although \<^verbatim>\<open>start_oper\<close> has already stored
  the descriptor and its index and advanced the tail: the ring is not what it was.
\<close>

theorem failed_notify_keeps_entry_published:
  assumes "alloc_op sz ioc = Some p" and "p \<noteq> NULL"
    and "\<not> ring_full ioc"
    and "unat (sq_tail ioc AND sq_mask ioc) < length (sq_entries ioc)"
    and "unat (sq_tail ioc AND sq_mask ioc) < length (sq_array ioc)"
    and "k_ret k < 0"
  shows "(\<exists>ioc'. io_start_recv sz k ioc hdl buf n usr = Some (False, ioc')
            \<and> sq_tail ioc' = sq_tail ioc + 1 \<and> sq_tail ioc' \<noteq> sq_tail ioc
            \<and> sq_entries ioc' ! unat (sq_tail ioc AND sq_mask ioc) =
                 \<lparr>opcode = IORING_OP_READ, fd = hdl, addr = buf, len = n, user_data = p\<rparr>
            \<and> sq_array ioc' ! unat (sq_tail ioc AND sq_mask ioc) = sq_tail ioc AND sq_mask ioc)
       \<and> (\<exists>ioc'. io_start_send sz k ioc hdl buf n usr = Some (False, ioc')
            \<and> sq_tail ioc' = sq_tail ioc + 1 \<and> sq_tail ioc' \<noteq> sq_tail ioc
            \<and> sq_entries ioc' ! unat (sq_tail ioc AND sq_mask ioc) =
                 \<lparr>opcode = IORING_OP_WRITE, fd = hdl, addr = buf, len = n, user_data = p\<rparr>
            \<and> sq_array ioc' ! unat (sq_tail ioc AND sq_mask ioc) = sq_tail ioc AND sq_mask ioc)
       \<and> (\<exists>ioc'. io_start_accept sz k ioc hdl usr = Some (False, ioc')
            \<and> sq_tail ioc' = sq_tail ioc + 1 \<and> sq_tail ioc' \<noteq> sq_tail ioc
            \<and> sq_entries ioc' ! unat (sq_tail ioc AND sq_mask ioc) =
                 \<lparr>opcode = IORING_OP_ACCEPT, fd = hdl, addr = 0, len = 0, user_data = p\<rparr>
            \<and> sq_array ioc' ! unat (sq_tail ioc AND sq_mask ioc) = sq_tail ioc AND sq_mask ioc)"
  using assms
  by (simp add: io_start_recv_def io_start_send_def io_start_accept_def start_oper_written)

theorem failed_notify_keeps_entry_published_witness:
  "alloc_op 16 ex_ioc = Some 0x1010 \<and> \<not> ring_full ex_ioc \<and> k_ret ex_k_fail < 0
   \<and> sq_tail ex_ioc = 1
   \<and> (\<exists>ioc'. io_start_recv 16 ex_k_fail ex_ioc 5 0x2000 100 0xC = Some (False, ioc')
         \<and> sq_tail ioc' = 2
         \<and> sq_entries ioc' ! 1 =
              \<lparr>opcode = IORING_OP_READ, fd = 5, addr = 0x2000, len = 100, user_data = 0x1010\<rparr>
         \<and> sq_array ioc' ! 1 = 1)"
proof -
  have al: "alloc_op 16 ex_ioc = Some 0x1010" by code_simp
  have nn: "(0x1010 :: ptr) \<noteq> NULL" by (simp add: NULL_def)
  have room: "\<not> ring_full ex_ioc"
    and r1: "unat (sq_tail ex_ioc AND sq_mask ex_ioc) < length (sq_entries ex_ioc)"
    and r2: "unat (sq_tail ex_ioc AND sq_mask ex_ioc) < length (sq_array ex_ioc)"
    by code_simp+
  have kf: "k_ret ex_k_fail < 0" by (simp add: ex_k_fail_def)
  have idx: "sq_tail ex_ioc AND sq_mask ex_ioc = 1" and tl: "sq_tail ex_ioc = 1"
    by (simp_all add: ex_ioc_def)
  note published =
    failed_notify_keeps_entry_published [OF al nn room r1 r2 kf, of 5 "0x2000" 100 "0xC",
      unfolded idx]
  from published show ?thesis
    using al room kf by (auto simp add: tl)
qed

section \<open>The ring-full test and free-running indices\<close>

text \<open>
  The test errs on the side of refusing only: a submission that \<^verbatim>\<open>start_oper\<close>
  accepts keeps \<open>tail - head \<le> capacity\<close>, as long as the kernel moves the head no
  further than the published tail.
\<close>

lemma start_oper_keeps_bound:
  assumes inv: "sq_tail ioc - sq_head ioc \<le> sq_limit ioc"
    and run: "start_oper k ioc sqe = Some (ok, ioc1)"
    and kernel: "ring_full ioc \<or> k_sq_head k - sq_head ioc \<le> sq_tail ioc + 1 - sq_head ioc"
  shows "sq_tail ioc1 - sq_head ioc1 \<le> sq_limit ioc1"
proof (cases "ring_full ioc")
  case True
  with run inv show ?thesis by (simp add: start_oper_full)
next
  case False
  have ne: "sq_tail ioc - sq_head ioc \<noteq> sq_limit ioc"
  proof
    assume "sq_tail ioc - sq_head ioc = sq_limit ioc"
    then have "sq_tail ioc = sq_head ioc + sq_limit ioc" by (metis diff_add_cancel add.commute)
    with False show False by (simp add: ring_full_def)
  qed
  with inv have lt: "sq_tail ioc - sq_head ioc < sq_limit ioc" by simp
  then have step: "sq_tail ioc + 1 - sq_head ioc \<le> sq_limit ioc"
    by (metis add_diff_eq add.commute inc_le diff_add_eq)
  from False kernel have k: "k_sq_head k - sq_head ioc \<le> sq_tail ioc + 1 - sq_head ioc" by simp
  have "sq_tail ioc + 1 - k_sq_head k =
        (sq_tail ioc + 1 - sq_head ioc) - (k_sq_head k - sq_head ioc)" by simp
  also from k have "\<dots> \<le> sq_tail ioc + 1 - sq_head ioc"
    by (rule word_sub_le)
  finally have "sq_tail ioc + 1 - k_sq_head k \<le> sq_limit ioc" using step by simp
  moreover from False run have "sq_tail ioc1 = sq_tail ioc + 1" "sq_head ioc1 = k_sq_head k"
    "sq_limit ioc1 = sq_limit ioc"
    by (auto simp: start_oper_def ring_full_def io_uring_enter_def Let_def split: if_splits)
  ultimately show ?thesis by simp
qed

text \<open>
  When \<open>head + capacity\<close> does not wrap, the test is exact: the submission is refused
  just when the ring holds at least \<open>capacity\<close> unconsumed entries.  Once the sum wraps
  while the tail has not, every submission is refused, whatever the ring holds.
\<close>

lemma ring_full_exact_without_wrap:
  assumes "unat (sq_head ioc) + unat (sq_limit ioc) < 2 ^ 32"
    and "sq_head ioc \<le> sq_tail ioc"
  shows "ring_full ioc \<longleftrightarrow> sq_limit ioc \<le> sq_tail ioc - sq_head ioc"
proof -
  from assms(1) have sum: "unat (sq_head ioc + sq_limit ioc) = unat (sq_head ioc) + unat (sq_limit ioc)"
    by (simp add: unat_word_ariths)
  from assms(2) have diff: "unat (sq_tail ioc - sq_head ioc) = unat (sq_tail ioc) - unat (sq_head ioc)"
    by (simp add: unat_sub)
  from assms(2) have "unat (sq_head ioc) \<le> unat (sq_tail ioc)" by (simp add: word_le_nat_alt)
  then show ?thesis
    unfolding ring_full_def word_le_nat_alt sum diff by arith
qed

lemma ring_full_after_wrap:
  assumes "2 ^ 32 \<le> unat (sq_head ioc) + unat (sq_limit ioc)"
    and "sq_head ioc \<le> sq_tail ioc"
  shows "ring_full ioc"
proof -
  have lim: "unat (sq_limit ioc) < 2 ^ 32" and hd: "unat (sq_head ioc) < 2 ^ 32"
    using unsigned_less [of "sq_limit ioc", where 'a = nat]
      unsigned_less [of "sq_head ioc", where 'a = nat] by simp_all
  have "unat (sq_head ioc + sq_limit ioc) = (unat (sq_head ioc) + unat (sq_limit ioc)) mod 2 ^ 32"
    by (simp add: unat_word_ariths)
  also from assms(1) lim hd have "\<dots> = unat (sq_head ioc) + unat (sq_limit ioc) - 2 ^ 32"
    by (simp add: mod_if)
  also from lim have "\<dots> \<le> unat (sq_head ioc)" by arith
  also from assms(2) have "\<dots> \<le> unat (sq_tail ioc)" by (simp add: word_le_nat_alt)
  finally show ?thesis by (simp add: ring_full_def word_le_nat_alt)
qed

text \<open>
  A run in lockstep from \<open>head = tail = h\<close> goes through as long as \<open>head + capacity\<close>
  does not wrap.
\<close>

lemma submit_cycles_lockstep:
  assumes "sq_head ioc = of_nat h" and "sq_tail ioc = of_nat h"
    and "h + n \<le> 2 ^ 32 - 32"
    and "sq_limit ioc = 32" and "sq_mask ioc = 31"
    and "length (sq_entries ioc) = 32" and "length (sq_array ioc) = 32"
  shows "\<exists>ioc'. submit_cycles n ioc = Some ioc'
           \<and> sq_head ioc' = of_nat (h + n) \<and> sq_tail ioc' = of_nat (h + n)
           \<and> sq_limit ioc' = 32 \<and> sq_mask ioc' = 31
           \<and> length (sq_entries ioc') = 32 \<and> length (sq_array ioc') = 32"
  using assms
proof (induction n arbitrary: ioc h)
  case 0
  then show ?case by simp
next
  case (Suc n)
  from Suc.prems(3) have h: "h < 2 ^ 32 - 32" by simp
  then have uh: "unat (of_nat h :: u32) = h"
    by (simp add: unat_of_nat)
  have nowrap: "unat (sq_head ioc) + unat (sq_limit ioc) < 2 ^ 32"
    using h by (simp add: Suc.prems(1,4) uh)
  have "\<not> sq_limit ioc \<le> sq_tail ioc - sq_head ioc"
    by (simp add: Suc.prems(1,2,4))
  with ring_full_exact_without_wrap [OF nowrap] have room: "\<not> ring_full ioc"
    by (simp add: Suc.prems(1,2))
  have "sq_tail ioc AND sq_mask ioc \<le> sq_mask ioc"
    by (rule word_and_le1)
  then have idx: "unat (sq_tail ioc AND sq_mask ioc) < 32"
    by (simp add: word_le_nat_alt Suc.prems(5))
  then have r1: "unat (sq_tail ioc AND sq_mask ioc) < length (sq_entries ioc)"
    and r2: "unat (sq_tail ioc AND sq_mask ioc) < length (sq_array ioc)"
    by (simp_all add: Suc.prems(6,7))
  let ?ioc1 = "ioc\<lparr>sq_entries := (sq_entries ioc)[unat (sq_tail ioc AND sq_mask ioc) := ex_sqe0],
                      sq_array := (sq_array ioc)[unat (sq_tail ioc AND sq_mask ioc) :=
                                                  sq_tail ioc AND sq_mask ioc],
                      sq_tail := sq_tail ioc + 1,
                      sq_head := k_sq_head (consumed_reply ioc),
                      cq_tail := k_cq_tail (consumed_reply ioc),
                      cq_entries := k_cq_entries (consumed_reply ioc)\<rparr>"
  have run: "start_oper (consumed_reply ioc) ioc ex_sqe0 = Some (True, ?ioc1)"
    using start_oper_written [OF room r1 r2, of "consumed_reply ioc" ex_sqe0]
    by (simp add: consumed_reply_def)
  have "\<exists>ioc'. submit_cycles n ?ioc1 = Some ioc'
           \<and> sq_head ioc' = of_nat (Suc h + n) \<and> sq_tail ioc' = of_nat (Suc h + n)
           \<and> sq_limit ioc' = 32 \<and> sq_mask ioc' = 31
           \<and> length (sq_entries ioc') = 32 \<and> length (sq_array ioc') = 32"
  proof (rule Suc.IH)
    show "sq_head ?ioc1 = of_nat (Suc h)" by (simp add: consumed_reply_def Suc.prems(2))
    show "sq_tail ?ioc1 = of_nat (Suc h)" by (simp add: Suc.prems(2))
    show "Suc h + n \<le> 2 ^ 32 - 32" using Suc.prems(3) by simp
  qed (simp_all add: Suc.prems)
  with run show ?case by simp
qed

text \<open>
  C6.  The ring-full test of \<^verbatim>\<open>start_oper\<close> compares \<open>tail\<close> with the wrapped sum
  \<open>head + capacity\<close>.  Starting from a fresh ring of capacity 32, after \<open>2 ^ 32 - 32\<close>
  submissions, each consumed by the kernel at once, \<open>head = tail = 0xFFFFFFE0\<close>: the
  ring holds no unconsumed entry, the sum wraps to \<open>0\<close>, and the next submission is
  refused.
\<close>

theorem empty_ring_refused_after_wrap:
  "\<exists>ioc'. submit_cycles (2 ^ 32 - 32) ex_ring32 = Some ioc'
     \<and> sq_head ioc' = 0xFFFFFFE0 \<and> sq_tail ioc' = 0xFFFFFFE0
     \<and> sq_tail ioc' - sq_head ioc' = 0 \<and> sq_limit ioc' = 32
     \<and> start_oper (consumed_reply ioc') ioc' ex_sqe0 = Some (False, ioc')"
proof -
  have "\<exists>ioc'. submit_cycles (2 ^ 32 - 32) ex_ring32 = Some ioc'
           \<and> sq_head ioc' = of_nat (0 + (2 ^ 32 - 32)) \<and> sq_tail ioc' = of_nat (0 + (2 ^ 32 - 32))
           \<and> sq_limit ioc' = 32 \<and> sq_mask ioc' = 31
           \<and> length (sq_entries ioc') = 32 \<and> length (sq_array ioc') = 32"
    by (rule submit_cycles_lockstep) (simp_all add: ex_ring32_def)
  then obtain ioc' where run: "submit_cycles (2 ^ 32 - 32) ex_ring32 = Some ioc'"
    and hd: "sq_head ioc' = 0xFFFFFFE0" and tl: "sq_tail ioc' = 0xFFFFFFE0"
    and lim: "sq_limit ioc' = 32"
    by auto
  from hd tl lim have "ring_full ioc'" by (simp add: ring_full_def)
  from start_oper_full [OF this] run hd tl lim show ?thesis by simp
qed

section \<open>Properties of the completion path\<close>

lemma wait_state_engine_side:
  "cq_head (wait_state k ioc) = cq_head ioc"
  "cq_mask (wait_state k ioc) = cq_mask ioc"
  "op_mem (wait_state k ioc) = op_mem ioc"
  "sq_tail (wait_state k ioc) = sq_tail ioc"
  "sq_array (wait_state k ioc) = sq_array ioc"
  "sq_entries (wait_state k ioc) = sq_entries ioc"
  by (simp_all add: wait_state_def io_uring_enter_def)

text \<open>
  A call of \<^verbatim>\<open>io_wait\<close> that consumes a completion record \<open>cqe\<close> whose tag is the
  address of the operation \<open>opn\<close>: the stores it performs, in program order.
\<close>

lemma io_wait_plan_consume:
  assumes "\<not> wait_failed k ioc" and "wait_cqe k ioc = Some cqe"
    and "op_mem ioc (cqe_user_data cqe) = Some opn"
  shows "io_wait_plan k ioc =
           Some (wait_state k ioc,
                 [Ev_user (op_user opn), Ev_type (op_type opn), Ev_error (sint (res cqe) < 0)]
                 @ (if sint (res cqe) < 0 then []
                    else result_stores (op_type opn) (sint (res cqe)))
                 @ [Op_type (cqe_user_data cqe) IO_VOID, Cq_head (cq_head ioc + 1)])"
proof (cases "cq_head ioc = cq_tail ioc")
  case True
  with assms(1) have ok: "\<not> k_ret k < 0" by (simp add: wait_failed_def)
  from True have ws: "wait_state k ioc =
      ioc\<lparr>sq_head := k_sq_head k, cq_tail := k_cq_tail k, cq_entries := k_cq_entries k\<rparr>"
    by (simp add: wait_state_def io_uring_enter_def)
  from assms(2) have idx: "unat (cq_head ioc AND cq_mask ioc) < length (k_cq_entries k)"
    and rec: "k_cq_entries k ! unat (cq_head ioc AND cq_mask ioc) = cqe"
    by (auto simp: wait_cqe_def ws Let_def split: if_splits)
  from True ok idx rec assms(3) show ?thesis
    by (simp add: io_wait_plan_def io_uring_enter_def io_wait_stores_def ws Let_def)
next
  case False
  then have ws: "wait_state k ioc = ioc" by (simp add: wait_state_def)
  from assms(2) have idx: "unat (cq_head ioc AND cq_mask ioc) < length (cq_entries ioc)"
    and rec: "cq_entries ioc ! unat (cq_head ioc AND cq_mask ioc) = cqe"
    by (auto simp: wait_cqe_def ws Let_def split: if_splits)
  from False idx rec assms(3) show ?thesis
    by (simp add: io_wait_plan_def io_wait_stores_def ws Let_def)
qed

text \<open>The event and the state such a call returns.\<close>

lemma io_wait_consume:
  assumes "\<not> wait_failed k ioc" and "wait_cqe k ioc = Some cqe"
    and "op_mem ioc (cqe_user_data cqe) = Some opn"
  shows "io_wait k ioc ev =
           Some ((wait_state k ioc)
                   \<lparr>op_mem := (op_mem ioc)(cqe_user_data cqe \<mapsto> opn\<lparr>op_type := IO_VOID\<rparr>),
                    cq_head := cq_head ioc + 1\<rparr>,
                 let ev1 = ev\<lparr>ev_user := op_user opn, ev_type := op_type opn,
                              ev_error := sint (res cqe) < 0\<rparr>
                 in if sint (res cqe) < 0 then ev1
                    else (case op_type opn of
                            IO_VOID \<Rightarrow> ev1
                          | IO_RECV \<Rightarrow> ev1\<lparr>ev_num := sint (res cqe)\<rparr>
                          | IO_SEND \<Rightarrow> ev1\<lparr>ev_num := sint (res cqe)\<rparr>
                          | IO_ACCEPT \<Rightarrow> ev1\<lparr>ev_handle := sint (res cqe)\<rparr>))"
  using assms(3)
  by (cases "op_type opn")
     (simp_all add: io_wait_def io_wait_plan_consume [OF assms] result_stores_def
        wait_state_engine_side Let_def)

lemma io_wait_fail:
  assumes "wait_failed k ioc"
  shows "io_wait_plan k ioc = Some (wait_state k ioc, [Ev_error True])"
    and "io_wait k ioc ev = Some (wait_state k ioc, ev\<lparr>ev_error := True\<rparr>)"
  using assms
  by (simp_all add: io_wait_def io_wait_plan_def wait_failed_def wait_state_def
        io_uring_enter_def)

text \<open>
  C1.  A call of \<^verbatim>\<open>io_wait\<close> that consumes a completion performs exactly these
  stores, in this order: the context, the kind and the error flag of the resolved slot into
  the event; then, when the kernel result is not negative, the result into \<^verbatim>\<open>num\<close> (for a
  receive or a send) or into \<^verbatim>\<open>handle\<close> (for an accept); then the reset of the slot to
  idle; and last, once, the completion head, with the value \<open>head + 1\<close>.  The head is
  still the old one in the state the stores start from.  The call returns that state with
  the slot idle and the head advanced by one, and the event with context, kind, error flag
  and result as stored; this holds whatever the sign of the kernel result.
\<close>

theorem wait_stores_head_last:
  assumes "\<not> wait_failed k ioc" and "wait_cqe k ioc = Some cqe"
    and "op_mem ioc (cqe_user_data cqe) = Some opn"
  shows "io_wait_plan k ioc =
           Some (wait_state k ioc,
                 [Ev_user (op_user opn), Ev_type (op_type opn), Ev_error (sint (res cqe) < 0)]
                 @ (if sint (res cqe) < 0 then []
                    else (case op_type opn of
                            IO_VOID \<Rightarrow> []
                          | IO_RECV \<Rightarrow> [Ev_num (sint (res cqe))]
                          | IO_SEND \<Rightarrow> [Ev_num (sint (res cqe))]
                          | IO_ACCEPT \<Rightarrow> [Ev_handle (sint (res cqe))]))
                 @ [Op_type (cqe_user_data cqe) IO_VOID, Cq_head (cq_head ioc + 1)])
       \<and> cq_head (wait_state k ioc) = cq_head ioc
       \<and> (\<exists>ioc' ev'.
             io_wait k ioc ev = Some (ioc', ev')
           \<and> ioc' = (wait_state k ioc)
                      \<lparr>op_mem := (op_mem ioc)(cqe_user_data cqe \<mapsto> opn\<lparr>op_type := IO_VOID\<rparr>),
                       cq_head := cq_head ioc + 1\<rparr>
           \<and> cq_head ioc' = cq_head ioc + 1
           \<and> op_mem ioc' = (op_mem ioc)(cqe_user_data cqe \<mapsto> opn\<lparr>op_type := IO_VOID\<rparr>)
           \<and> ev_user ev' = op_user opn \<and> ev_type ev' = op_type opn
           \<and> ev_error ev' = (sint (res cqe) < 0)
           \<and> ev_num ev' =
               (if \<not> sint (res cqe) < 0 \<and> (op_type opn = IO_RECV \<or> op_type opn = IO_SEND)
                then sint (res cqe) else ev_num ev)
           \<and> ev_handle ev' =
               (if \<not> sint (res cqe) < 0 \<and> op_type opn = IO_ACCEPT
                then sint (res cqe) else ev_handle ev))"
proof (intro conjI)
  show "io_wait_plan k ioc =
           Some (wait_state k ioc,
                 [Ev_user (op_user opn), Ev_type (op_type opn), Ev_error (sint (res cqe) < 0)]
                 @ (if sint (res cqe) < 0 then []
                    else (case op_type opn of
                            IO_VOID \<Rightarrow> []
                          | IO_RECV \<Rightarrow> [Ev_num (sint (res cqe))]
                          | IO_SEND \<Rightarrow> [Ev_num (sint (res cqe))]
                          | IO_ACCEPT \<Rightarrow> [Ev_handle (sint (res cqe))]))
                 @ [Op_type (cqe_user_data cqe) IO_VOID, Cq_head (cq_head ioc + 1)])"
    using io_wait_plan_consume [OF assms] by (simp add: result_stores_def)
  show "cq_head (wait_state k ioc) = cq_head ioc"
    by (simp add: wait_state_engine_side)
  show "\<exists>ioc' ev'.
             io_wait k ioc ev = Some (ioc', ev')
           \<and> ioc' = (wait_state k ioc)
                      \<lparr>op_mem := (op_mem ioc)(cqe_user_data cqe \<mapsto> opn\<lparr>op_type := IO_VOID\<rparr>),
                       cq_head := cq_head ioc + 1\<rparr>
           \<and> cq_head ioc' = cq_head ioc + 1
           \<and> op_mem ioc' = (op_mem ioc)(cqe_user_data cqe \<mapsto> opn\<lparr>op_type := IO_VOID\<rparr>)
           \<and> ev_user ev' = op_user opn \<and> ev_type ev' = op_type opn
           \<and> ev_error ev' = (sint (res cqe) < 0)
           \<and> ev_num ev' =
               (if \<not> sint (res cqe) < 0 \<and> (op_type opn = IO_RECV \<or> op_type opn = IO_SEND)
                then sint (res cqe) else ev_num ev)
           \<and> ev_handle ev' =
               (if \<not> sint (res cqe) < 0 \<and> op_type opn = IO_ACCEPT
                then sint (res cqe) else ev_handle ev)"
    using io_wait_consume [OF assms, of ev]
    by (cases "op_type opn") (simp_all add: Let_def)
qed

theorem wait_stores_head_last_witness:
  "\<not> wait_failed ex_k_ok ex_ioc \<and> wait_cqe ex_k_ok ex_ioc = Some ex_cqe0
   \<and> op_mem ex_ioc 0x1000 = Some \<lparr>op_user = 0xA, op_type = IO_RECV\<rparr>
   \<and> map_option snd (io_wait_plan ex_k_ok ex_ioc) =
       Some [Ev_user 0xA, Ev_type IO_RECV, Ev_error False, Ev_num 5,
             Op_type 0x1000 IO_VOID, Cq_head 1]
   \<and> (\<exists>ioc' ev'. io_wait ex_k_ok ex_ioc ex_ev = Some (ioc', ev')
         \<and> cq_head ioc' = 1
         \<and> op_mem ioc' 0x1000 = Some \<lparr>op_user = 0xA, op_type = IO_VOID\<rparr>
         \<and> ev' = \<lparr>ev_user = 0xA, ev_type = IO_RECV, ev_error = False, ev_num = 5,
                  ev_handle = 77\<rparr>)
   \<and> map_option snd (io_wait_plan ex_k_ok ex_accept_failed) =
       Some [Ev_user 0xA, Ev_type IO_ACCEPT, Ev_error True,
             Op_type 0x1000 IO_VOID, Cq_head 1]
   \<and> (\<exists>ioc' ev'. io_wait ex_k_ok ex_accept_failed ex_ev = Some (ioc', ev')
         \<and> cq_head ioc' = 1
         \<and> op_mem ioc' 0x1000 = Some \<lparr>op_user = 0xA, op_type = IO_VOID\<rparr>
         \<and> ev' = \<lparr>ev_user = 0xA, ev_type = IO_ACCEPT, ev_error = True, ev_num = 0,
                  ev_handle = 77\<rparr>)"
proof -
  let ?bad = "\<lparr>cqe_user_data = 0x1000, res = - 11\<rparr>"
  let ?rcv = "\<lparr>op_user = 0xA, op_type = IO_RECV\<rparr>"
  let ?acc = "\<lparr>op_user = 0xA, op_type = IO_ACCEPT\<rparr>"
  have nf: "\<not> wait_failed ex_k_ok ex_ioc" by code_simp
  have rec: "wait_cqe ex_k_ok ex_ioc = Some ex_cqe0" by code_simp
  have slot: "op_mem ex_ioc (cqe_user_data ex_cqe0) = Some ?rcv"
    by (simp add: ex_ioc_def ex_cqe0_def)
  have nf2: "\<not> wait_failed ex_k_ok ex_accept_failed" by code_simp
  have rec2: "wait_cqe ex_k_ok ex_accept_failed = Some ?bad" by code_simp
  have slot2: "op_mem ex_accept_failed (cqe_user_data ?bad) = Some ?acc"
    by (simp add: ex_accept_failed_def)
  have hd: "cq_head ex_ioc = 0" "cq_head ex_accept_failed = 0"
    and tag: "cqe_user_data ex_cqe0 = 0x1000"
    and pos: "sint (res ex_cqe0) = 5"
    by (simp_all add: ex_ioc_def ex_cqe0_def ex_accept_failed_def)
  note good = wait_stores_head_last [OF nf rec slot, of ex_ev]
  note fail = wait_stores_head_last [OF nf2 rec2 slot2, of ex_ev]
  from good have p1: "map_option snd (io_wait_plan ex_k_ok ex_ioc) =
       Some [Ev_user 0xA, Ev_type IO_RECV, Ev_error False, Ev_num 5,
             Op_type 0x1000 IO_VOID, Cq_head 1]"
    by (simp add: hd tag pos)
  from good have w1: "\<exists>ioc' ev'. io_wait ex_k_ok ex_ioc ex_ev = Some (ioc', ev')
         \<and> cq_head ioc' = 1
         \<and> op_mem ioc' 0x1000 = Some \<lparr>op_user = 0xA, op_type = IO_VOID\<rparr>
         \<and> ev' = \<lparr>ev_user = 0xA, ev_type = IO_RECV, ev_error = False, ev_num = 5,
                  ev_handle = 77\<rparr>"
    by (auto simp: hd tag pos ex_ev_def)
  from fail have p2: "map_option snd (io_wait_plan ex_k_ok ex_accept_failed) =
       Some [Ev_user 0xA, Ev_type IO_ACCEPT, Ev_error True,
             Op_type 0x1000 IO_VOID, Cq_head 1]"
    by (simp add: hd)
  from fail have w2: "\<exists>ioc' ev'. io_wait ex_k_ok ex_accept_failed ex_ev = Some (ioc', ev')
         \<and> cq_head ioc' = 1
         \<and> op_mem ioc' 0x1000 = Some \<lparr>op_user = 0xA, op_type = IO_VOID\<rparr>
         \<and> ev' = \<lparr>ev_user = 0xA, ev_type = IO_ACCEPT, ev_error = True, ev_num = 0,
                  ev_handle = 77\<rparr>"
    by (auto simp: hd ex_ev_def)
  from nf rec slot p1 w1 p2 w2 show ?thesis by (simp add: tag)
qed

text \<open>
  C4.  When the blocking call of \<^verbatim>\<open>io_wait\<close> fails, the only store is the error flag of
  the event: kind, context and result of the event are what they were, the completion
  head is not moved, the operation table is untouched, and the state differs from the one
  before the call only in what the kernel wrote.
\<close>

theorem wait_failure_consumes_nothing:
  assumes "wait_failed k ioc"
  shows "io_wait_plan k ioc = Some (wait_state k ioc, [Ev_error True])
       \<and> io_wait k ioc ev = Some (wait_state k ioc, ev\<lparr>ev_error := True\<rparr>)
       \<and> wait_state k ioc =
           ioc\<lparr>sq_head := k_sq_head k, cq_tail := k_cq_tail k, cq_entries := k_cq_entries k\<rparr>
       \<and> cq_head (wait_state k ioc) = cq_head ioc
       \<and> op_mem (wait_state k ioc) = op_mem ioc"
  using assms io_wait_fail [OF assms]
  by (simp add: wait_state_engine_side) (simp add: wait_failed_def wait_state_def io_uring_enter_def)

theorem wait_failure_consumes_nothing_witness:
  "wait_failed ex_k_fail ex_cq_empty
   \<and> (\<exists>ioc'. io_wait ex_k_fail ex_cq_empty ex_ev =
        Some (ioc', \<lparr>ev_user = 0, ev_type = IO_VOID, ev_error = True, ev_num = 0, ev_handle = 77\<rparr>)
        \<and> cq_head ioc' = 0
        \<and> op_mem ioc' 0x1000 = Some \<lparr>op_user = 0xA, op_type = IO_RECV\<rparr>)"
proof -
  have wf: "wait_failed ex_k_fail ex_cq_empty" by code_simp
  have hd: "cq_head ex_cq_empty = 0"
    and slot: "op_mem ex_cq_empty 0x1000 = Some \<lparr>op_user = 0xA, op_type = IO_RECV\<rparr>"
    by (simp_all add: ex_cq_empty_def ex_ioc_def)
  from wait_failure_consumes_nothing [OF wf, of ex_ev] wf hd slot
  show ?thesis by (simp add: ex_ev_def)
qed

text \<open>
  C5.  A consuming \<^verbatim>\<open>io_wait\<close> sets the error flag of the event to "the signed result
  is negative".  With a non-negative result the byte count of a receive or send, or the
  handle of an accept, is that result.  With a negative result neither field is written
  (for an accept: error set, handle as it was), and in every case the slot is idle
  afterwards.
\<close>

theorem wait_reports_result:
  assumes "\<not> wait_failed k ioc" and "wait_cqe k ioc = Some cqe"
    and "op_mem ioc (cqe_user_data cqe) = Some opn"
  shows "\<exists>ioc' ev'.
           io_wait k ioc ev = Some (ioc', ev')
         \<and> ev_error ev' = (sint (res cqe) < 0)
         \<and> (\<not> sint (res cqe) < 0 \<longrightarrow>
              (op_type opn = IO_RECV \<or> op_type opn = IO_SEND \<longrightarrow> ev_num ev' = sint (res cqe))
              \<and> (op_type opn = IO_ACCEPT \<longrightarrow> ev_handle ev' = sint (res cqe)))
         \<and> (sint (res cqe) < 0 \<longrightarrow> ev_num ev' = ev_num ev \<and> ev_handle ev' = ev_handle ev)
         \<and> (op_type opn = IO_ACCEPT \<and> sint (res cqe) < 0 \<longrightarrow>
              ev_error ev' \<and> ev_handle ev' = ev_handle ev)
         \<and> op_mem ioc' (cqe_user_data cqe) = Some (opn\<lparr>op_type := IO_VOID\<rparr>)"
  using io_wait_consume [OF assms, of ev]
  by (cases "op_type opn") (auto simp: Let_def)

theorem wait_reports_result_witness:
  "\<not> wait_failed ex_k_ok ex_accept_failed
   \<and> wait_cqe ex_k_ok ex_accept_failed = Some \<lparr>cqe_user_data = 0x1000, res = - 11\<rparr>
   \<and> op_mem ex_accept_failed 0x1000 = Some \<lparr>op_user = 0xA, op_type = IO_ACCEPT\<rparr>
   \<and> (\<exists>ioc' ev'. io_wait ex_k_ok ex_accept_failed ex_ev = Some (ioc', ev')
         \<and> ev_error ev' \<and> ev_handle ev' = 77
         \<and> op_mem ioc' 0x1000 = Some \<lparr>op_user = 0xA, op_type = IO_VOID\<rparr>)
   \<and> (\<exists>ioc' ev'. io_wait ex_k_ok ex_ioc ex_ev = Some (ioc', ev')
         \<and> \<not> ev_error ev' \<and> ev_num ev' = 5
         \<and> op_mem ioc' 0x1000 = Some \<lparr>op_user = 0xA, op_type = IO_VOID\<rparr>)"
proof -
  let ?cqe = "\<lparr>cqe_user_data = 0x1000, res = - 11\<rparr>"
  let ?acc = "\<lparr>op_user = 0xA, op_type = IO_ACCEPT\<rparr>"
  let ?rcv = "\<lparr>op_user = 0xA, op_type = IO_RECV\<rparr>"
  have nf: "\<not> wait_failed ex_k_ok ex_accept_failed" by code_simp
  have rec: "wait_cqe ex_k_ok ex_accept_failed = Some ?cqe" by code_simp
  have slot: "op_mem ex_accept_failed (cqe_user_data ?cqe) = Some ?acc"
    by (simp add: ex_accept_failed_def)
  have neg: "sint (res ?cqe) < 0" by simp
  have old: "ev_handle ex_ev = 77" by (simp add: ex_ev_def)
  have nf2: "\<not> wait_failed ex_k_ok ex_ioc" by code_simp
  have rec2: "wait_cqe ex_k_ok ex_ioc = Some ex_cqe0" by code_simp
  have slot2: "op_mem ex_ioc (cqe_user_data ex_cqe0) = Some ?rcv"
    by (simp add: ex_ioc_def ex_cqe0_def)
  have pos: "sint (res ex_cqe0) = 5" and tag: "cqe_user_data ex_cqe0 = 0x1000"
    by (simp_all add: ex_cqe0_def)
  from wait_reports_result [OF nf rec slot, of ex_ev] neg old
  have a: "\<exists>ioc' ev'. io_wait ex_k_ok ex_accept_failed ex_ev = Some (ioc', ev')
         \<and> ev_error ev' \<and> ev_handle ev' = 77
         \<and> op_mem ioc' 0x1000 = Some \<lparr>op_user = 0xA, op_type = IO_VOID\<rparr>"
    by auto
  from wait_reports_result [OF nf2 rec2 slot2, of ex_ev] pos tag
  have b: "\<exists>ioc' ev'. io_wait ex_k_ok ex_ioc ex_ev = Some (ioc', ev')
         \<and> \<not> ev_error ev' \<and> ev_num ev' = 5
         \<and> op_mem ioc' 0x1000 = Some \<lparr>op_user = 0xA, op_type = IO_VOID\<rparr>"
    by auto
  from nf rec slot a b show ?thesis by simp
qed

lemma io_wait_consume_event:
  assumes "\<not> wait_failed k ioc" and "wait_cqe k ioc = Some cqe"
    and "op_mem ioc (cqe_user_data cqe) = Some opn"
  shows "\<exists>ioc' ev'. io_wait k ioc ev = Some (ioc', ev')
         \<and> ev_user ev' = op_user opn \<and> ev_type ev' = op_type opn
         \<and> op_mem ioc' = (op_mem ioc)(cqe_user_data cqe \<mapsto> opn\<lparr>op_type := IO_VOID\<rparr>)"
  using io_wait_consume [OF assms, of ev]
  by (cases "op_type opn") (auto simp: Let_def)

text \<open>
  A successful typed submit stored, at \<open>tail & mask\<close> of the state it started in, a
  descriptor whose tag is the address of the slot it allocated, and committed that slot.
\<close>

lemma start_oper_True:
  assumes "start_oper k ioc sqe = Some (True, ioc1)"
  shows "sq_entries ioc1 ! unat (sq_tail ioc AND sq_mask ioc) = sqe"
    and "op_mem ioc1 = op_mem ioc"
proof -
  from assms have nf: "\<not> ring_full ioc"
    by (auto simp: start_oper_full)
  from assms nf have r: "unat (sq_tail ioc AND sq_mask ioc) < length (sq_entries ioc)"
    "unat (sq_tail ioc AND sq_mask ioc) < length (sq_array ioc)"
    by (auto simp: start_oper_def ring_full_def Let_def split: if_splits)
  from assms start_oper_written [OF nf r, of k sqe]
  show "sq_entries ioc1 ! unat (sq_tail ioc AND sq_mask ioc) = sqe"
    using r by auto
  from start_oper_op_mem [OF assms] show "op_mem ioc1 = op_mem ioc" .
qed

lemma typed_submit_True:
  assumes "alloc_op sz ioc = Some p" and "p \<noteq> NULL"
    and so: "start_oper k ioc sqe = Some (True, ioc0)"
    and co: "commit_op p usr t ioc0 = Some ioc1"
  shows "\<exists>opn. sq_entries ioc1 ! unat (sq_tail ioc AND sq_mask ioc) = sqe
           \<and> op_mem ioc p = Some opn \<and> op_type opn = IO_VOID
           \<and> op_mem ioc1 = (op_mem ioc)(p \<mapsto> opn\<lparr>op_user := usr, op_type := t\<rparr>)"
proof -
  from alloc_op_idle [OF assms(1,2)] obtain opn where
    idle: "op_mem ioc p = Some opn" "op_type opn = IO_VOID" by blast
  from start_oper_True [OF so] co idle show ?thesis
    by (intro exI [of _ opn]) (auto simp: commit_op_def)
qed

lemma typed_submit_round_trip:
  assumes al: "alloc_op sz ioc = Some p" and nn: "p \<noteq> NULL"
    and so: "start_oper k ioc sqe = Some (True, ioc0)"
    and co: "commit_op p usr t ioc0 = Some ioc1"
  shows "\<exists>opn.
           sq_entries ioc1 ! unat (sq_tail ioc AND sq_mask ioc) = sqe
         \<and> op_mem ioc1 p = Some opn \<and> op_user opn = usr \<and> op_type opn = t
         \<and> (\<forall>k2 ioc2 ev cqe.
               \<not> wait_failed k2 ioc2 \<and> wait_cqe k2 ioc2 = Some cqe
               \<and> cqe_user_data cqe = p \<and> op_mem ioc2 p = Some opn
               \<longrightarrow> (\<exists>ioc3 ev'.
                      io_wait k2 ioc2 ev = Some (ioc3, ev')
                    \<and> ev_user ev' = usr \<and> ev_type ev' = t
                    \<and> op_mem ioc3 = (op_mem ioc2)(p \<mapsto> opn\<lparr>op_type := IO_VOID\<rparr>)))"
proof -
  from typed_submit_True [OF al nn so co] obtain opn0 where
    wr: "sq_entries ioc1 ! unat (sq_tail ioc AND sq_mask ioc) = sqe"
    and mem: "op_mem ioc1 = (op_mem ioc)(p \<mapsto> opn0\<lparr>op_user := usr, op_type := t\<rparr>)"
    by blast
  let ?opn = "opn0\<lparr>op_user := usr, op_type := t\<rparr>"
  have res: "\<exists>ioc3 ev'. io_wait k2 ioc2 ev = Some (ioc3, ev')
                    \<and> ev_user ev' = usr \<and> ev_type ev' = t
                    \<and> op_mem ioc3 = (op_mem ioc2)(p \<mapsto> ?opn\<lparr>op_type := IO_VOID\<rparr>)"
    if "\<not> wait_failed k2 ioc2" "wait_cqe k2 ioc2 = Some cqe" "cqe_user_data cqe = p"
      "op_mem ioc2 p = Some ?opn" for k2 ioc2 ev cqe
  proof -
    from that(3,4) have "op_mem ioc2 (cqe_user_data cqe) = Some ?opn" by simp
    from io_wait_consume_event [OF that(1,2) this, of ev] that(3) show ?thesis by auto
  qed
  show ?thesis
    using wr mem res
    by (intro exI [of _ ?opn]) simp
qed

lemma io_start_recv_True:
  assumes "io_start_recv sz k ioc hdl buf n usr = Some (True, ioc1)"
  shows "\<exists>p ioc0. alloc_op sz ioc = Some p \<and> p \<noteq> NULL
           \<and> start_oper k ioc \<lparr>opcode = IORING_OP_READ, fd = hdl, addr = buf, len = n, user_data = p\<rparr> = Some (True, ioc0)
           \<and> commit_op p usr IO_RECV ioc0 = Some ioc1"
proof -
  from assms obtain p where al: "alloc_op sz ioc = Some p"
    by (cases "alloc_op sz ioc") (simp_all add: io_start_recv_def)
  from assms al have nn: "p \<noteq> NULL"
    by (auto simp: io_start_recv_def)
  from assms al nn obtain ok ioc0 where
    so: "start_oper k ioc \<lparr>opcode = IORING_OP_READ, fd = hdl, addr = buf, len = n, user_data = p\<rparr> = Some (ok, ioc0)"
    by (cases "start_oper k ioc \<lparr>opcode = IORING_OP_READ, fd = hdl, addr = buf, len = n, user_data = p\<rparr>")
       (auto simp: io_start_recv_def)
  from assms al nn so have "ok" and "commit_op p usr IO_RECV ioc0 = Some ioc1"
    by (auto simp: io_start_recv_def split: if_splits)
  with al nn so show ?thesis by auto
qed

lemma io_start_send_True:
  assumes "io_start_send sz k ioc hdl buf n usr = Some (True, ioc1)"
  shows "\<exists>p ioc0. alloc_op sz ioc = Some p \<and> p \<noteq> NULL
           \<and> start_oper k ioc \<lparr>opcode = IORING_OP_WRITE, fd = hdl, addr = buf, len = n, user_data = p\<rparr> = Some (True, ioc0)
           \<and> commit_op p usr IO_SEND ioc0 = Some ioc1"
proof -
  from assms obtain p where al: "alloc_op sz ioc = Some p"
    by (cases "alloc_op sz ioc") (simp_all add: io_start_send_def)
  from assms al have nn: "p \<noteq> NULL"
    by (auto simp: io_start_send_def)
  from assms al nn obtain ok ioc0 where
    so: "start_oper k ioc \<lparr>opcode = IORING_OP_WRITE, fd = hdl, addr = buf, len = n, user_data = p\<rparr> = Some (ok, ioc0)"
    by (cases "start_oper k ioc \<lparr>opcode = IORING_OP_WRITE, fd = hdl, addr = buf, len = n, user_data = p\<rparr>")
       (auto simp: io_start_send_def)
  from assms al nn so have "ok" and "commit_op p usr IO_SEND ioc0 = Some ioc1"
    by (auto simp: io_start_send_def split: if_splits)
  with al nn so show ?thesis by auto
qed

lemma io_start_accept_True:
  assumes "io_start_accept sz k ioc hdl usr = Some (True, ioc1)"
  shows "\<exists>p ioc0. alloc_op sz ioc = Some p \<and> p \<noteq> NULL
           \<and> start_oper k ioc \<lparr>opcode = IORING_OP_ACCEPT, fd = hdl, addr = 0, len = 0, user_data = p\<rparr> = Some (True, ioc0)
           \<and> commit_op p usr IO_ACCEPT ioc0 = Some ioc1"
proof -
  from assms obtain p where al: "alloc_op sz ioc = Some p"
    by (cases "alloc_op sz ioc") (simp_all add: io_start_accept_def)
  from assms al have nn: "p \<noteq> NULL"
    by (auto simp: io_start_accept_def)
  from assms al nn obtain ok ioc0 where
    so: "start_oper k ioc \<lparr>opcode = IORING_OP_ACCEPT, fd = hdl, addr = 0, len = 0, user_data = p\<rparr> = Some (ok, ioc0)"
    by (cases "start_oper k ioc \<lparr>opcode = IORING_OP_ACCEPT, fd = hdl, addr = 0, len = 0, user_data = p\<rparr>")
       (auto simp: io_start_accept_def)
  from assms al nn so have "ok" and "commit_op p usr IO_ACCEPT ioc0 = Some ioc1"
    by (auto simp: io_start_accept_def split: if_splits)
  with al nn so show ?thesis by auto
qed

text \<open>
  C7.  After any successful typed submit, the tag in the descriptor it stored is the
  address \<open>p\<close> of the slot it allocated, and that slot holds the kind and context of the
  operation.  A later \<^verbatim>\<open>io_wait\<close> that consumes a completion record carrying the same
  64-bit tag, while the operation is still in its slot, reports that kind and context and
  resets the slot at \<open>p\<close> and no other.
\<close>

theorem tag_round_trip:
  assumes "io_start_recv sz k ioc hdl buf n usr = Some (True, ioc1) \<and> t = IO_RECV
         \<or> io_start_send sz k ioc hdl buf n usr = Some (True, ioc1) \<and> t = IO_SEND
         \<or> io_start_accept sz k ioc hdl usr = Some (True, ioc1) \<and> t = IO_ACCEPT"
  shows "\<exists>p opn.
           alloc_op sz ioc = Some p
         \<and> user_data (sq_entries ioc1 ! unat (sq_tail ioc AND sq_mask ioc)) = p
         \<and> op_mem ioc1 p = Some opn \<and> op_user opn = usr \<and> op_type opn = t
         \<and> (\<forall>k2 ioc2 ev cqe.
               \<not> wait_failed k2 ioc2 \<and> wait_cqe k2 ioc2 = Some cqe
               \<and> cqe_user_data cqe = user_data (sq_entries ioc1 ! unat (sq_tail ioc AND sq_mask ioc))
               \<and> op_mem ioc2 p = Some opn
               \<longrightarrow> (\<exists>ioc3 ev'.
                      io_wait k2 ioc2 ev = Some (ioc3, ev')
                    \<and> ev_user ev' = usr \<and> ev_type ev' = t
                    \<and> op_mem ioc3 = (op_mem ioc2)(p \<mapsto> opn\<lparr>op_type := IO_VOID\<rparr>)))"
proof -
  from assms consider
      (recv) "io_start_recv sz k ioc hdl buf n usr = Some (True, ioc1)" "t = IO_RECV"
    | (send) "io_start_send sz k ioc hdl buf n usr = Some (True, ioc1)" "t = IO_SEND"
    | (accept) "io_start_accept sz k ioc hdl usr = Some (True, ioc1)" "t = IO_ACCEPT"
    by blast
  then show ?thesis
  proof cases
    case recv
    from io_start_recv_True [OF recv(1)] obtain p ioc0 where
      al: "alloc_op sz ioc = Some p" and nn: "p \<noteq> NULL"
      and so: "start_oper k ioc \<lparr>opcode = IORING_OP_READ, fd = hdl, addr = buf, len = n, user_data = p\<rparr> = Some (True, ioc0)"
      and co: "commit_op p usr IO_RECV ioc0 = Some ioc1"
      by blast
    from typed_submit_round_trip [OF al nn so co] al recv(2) show ?thesis
      by (intro exI [of _ p]) auto
  next
    case send
    from io_start_send_True [OF send(1)] obtain p ioc0 where
      al: "alloc_op sz ioc = Some p" and nn: "p \<noteq> NULL"
      and so: "start_oper k ioc \<lparr>opcode = IORING_OP_WRITE, fd = hdl, addr = buf, len = n, user_data = p\<rparr> = Some (True, ioc0)"
      and co: "commit_op p usr IO_SEND ioc0 = Some ioc1"
      by blast
    from typed_submit_round_trip [OF al nn so co] al send(2) show ?thesis
      by (intro exI [of _ p]) auto
  next
    case accept
    from io_start_accept_True [OF accept(1)] obtain p ioc0 where
      al: "alloc_op sz ioc = Some p" and nn: "p \<noteq> NULL"
      and so: "start_oper k ioc \<lparr>opcode = IORING_OP_ACCEPT, fd = hdl, addr = 0, len = 0, user_data = p\<rparr> = Some (True, ioc0)"
      and co: "commit_op p usr IO_ACCEPT ioc0 = Some ioc1"
      by blast
    from typed_submit_round_trip [OF al nn so co] al accept(2) show ?thesis
      by (intro exI [of _ p]) auto
  qed
qed

theorem tag_round_trip_witness:
  "\<exists>ioc1. io_start_recv 16 ex_k_ok ex_ioc 5 0x2000 100 0xC = Some (True, ioc1)
     \<and> alloc_op 16 ex_ioc = Some 0x1010
     \<and> user_data (sq_entries ioc1 ! 1) = 0x1010
     \<and> op_mem ioc1 0x1010 = Some \<lparr>op_user = 0xC, op_type = IO_RECV\<rparr>
     \<and> (\<exists>ioc3 ev'.
           io_wait ex_k_ok
             (ioc1\<lparr>cq_entries := (cq_entries ioc1)[0 := \<lparr>cqe_user_data = 0x1010, res = 7\<rparr>]\<rparr>)
             ex_ev = Some (ioc3, ev')
         \<and> ev_user ev' = 0xC \<and> ev_type ev' = IO_RECV
         \<and> op_mem ioc3 0x1010 = Some \<lparr>op_user = 0xC, op_type = IO_VOID\<rparr>
         \<and> op_mem ioc3 0x1000 = Some \<lparr>op_user = 0xA, op_type = IO_RECV\<rparr>)"
proof -
  let ?sqe = "\<lparr>opcode = IORING_OP_READ, fd = 5, addr = 0x2000, len = 100,
               user_data = 0x1010 :: ptr\<rparr>"
  let ?cqe = "\<lparr>cqe_user_data = 0x1010, res = 7\<rparr>"
  have al: "alloc_op 16 ex_ioc = Some 0x1010" by code_simp
  have nn: "(0x1010 :: ptr) \<noteq> NULL" by (simp add: NULL_def)
  have room: "\<not> ring_full ex_ioc"
    and r1: "unat (sq_tail ex_ioc AND sq_mask ex_ioc) < length (sq_entries ex_ioc)"
    and r2: "unat (sq_tail ex_ioc AND sq_mask ex_ioc) < length (sq_array ex_ioc)"
    by code_simp+
  have ko: "(\<not> k_ret ex_k_ok < 0) = True" by (simp add: ex_k_ok_def)
  have idx: "unat (sq_tail ex_ioc AND sq_mask ex_ioc) = 1" by (simp add: ex_ioc_def)
  note so = start_oper_written [OF room r1 r2, of ex_k_ok ?sqe, unfolded ko]
  from al nn so obtain ioc1 where
    sub: "io_start_recv 16 ex_k_ok ex_ioc 5 0x2000 100 0xC = Some (True, ioc1)"
    and cq: "cq_head ioc1 = 0" "cq_tail ioc1 = 1" "cq_mask ioc1 = 7"
      "cq_entries ioc1 = cq_entries ex_ioc"
    and old: "op_mem ioc1 0x1000 = Some \<lparr>op_user = 0xA, op_type = IO_RECV\<rparr>"
    by (simp add: io_start_recv_def commit_op_def ex_ioc_def ex_k_ok_def)
  let ?ioc2 = "ioc1\<lparr>cq_entries := (cq_entries ioc1)[0 := ?cqe]\<rparr>"
  from sub have hyp:
    "io_start_recv 16 ex_k_ok ex_ioc 5 0x2000 100 0xC = Some (True, ioc1) \<and> IO_RECV = IO_RECV
     \<or> io_start_send 16 ex_k_ok ex_ioc 5 0x2000 100 0xC = Some (True, ioc1) \<and> IO_RECV = IO_SEND
     \<or> io_start_accept 16 ex_k_ok ex_ioc 5 0xC = Some (True, ioc1) \<and> IO_RECV = IO_ACCEPT"
    by simp
  from tag_round_trip [OF hyp] al obtain opn where
    tag: "user_data (sq_entries ioc1 ! unat (sq_tail ex_ioc AND sq_mask ex_ioc)) = 0x1010"
    and slot: "op_mem ioc1 0x1010 = Some opn" "op_user opn = 0xC" "op_type opn = IO_RECV"
    and resolve: "\<And>k2 ioc2 ev cqe.
        \<not> wait_failed k2 ioc2 \<Longrightarrow> wait_cqe k2 ioc2 = Some cqe \<Longrightarrow>
        cqe_user_data cqe = 0x1010 \<Longrightarrow> op_mem ioc2 0x1010 = Some opn \<Longrightarrow>
        \<exists>ioc3 ev'. io_wait k2 ioc2 ev = Some (ioc3, ev')
          \<and> ev_user ev' = 0xC \<and> ev_type ev' = IO_RECV
          \<and> op_mem ioc3 = (op_mem ioc2)(0x1010 \<mapsto> opn\<lparr>op_type := IO_VOID\<rparr>)"
    by auto
  from slot have opn: "opn = \<lparr>op_user = 0xC, op_type = IO_RECV\<rparr>" by (cases opn) simp
  have nf: "\<not> wait_failed ex_k_ok ?ioc2" by (simp add: wait_failed_def cq)
  have rec: "wait_cqe ex_k_ok ?ioc2 = Some ?cqe"
    by (simp add: wait_cqe_def wait_state_def cq ex_ioc_def)
  from resolve [OF nf rec, of ex_ev] slot(1) old
  have "\<exists>ioc3 ev'. io_wait ex_k_ok ?ioc2 ex_ev = Some (ioc3, ev')
         \<and> ev_user ev' = 0xC \<and> ev_type ev' = IO_RECV
         \<and> op_mem ioc3 0x1010 = Some \<lparr>op_user = 0xC, op_type = IO_VOID\<rparr>
         \<and> op_mem ioc3 0x1000 = Some \<lparr>op_user = 0xA, op_type = IO_RECV\<rparr>"
    by (auto simp: opn)
  with sub al tag slot(1) show ?thesis
    by (intro exI [of _ ioc1]) (simp add: idx opn)
qed

section \<open>Properties of the setup\<close>

lemma int_of_size_fits:
  "n < 2 ^ 31 \<Longrightarrow> int_of_size n = int n"
  unfolding int_of_size_def
  by (rule signed_take_bit_int_eq_self) simp_all

lemma size_of_int_nat:
  "size_of_int (int n) = of_nat n"
  by (simp add: size_of_int_def)

lemma ring_sizes_fit:
  assumes "S = unat (sq_off_array p) + unat (p_sq_entries p) * sizeof_unsigned"
    and "C = unat (cq_off_cqes p) + unat (p_cq_entries p) * sizeof_cqe"
    and "S < 2 ^ 31" and "C < 2 ^ 31"
  shows "ring_sizes p =
           (if single_mmap p then (int (max S C), int (max S C)) else (int S, int C))"
  unfolding ring_sizes_def Let_def assms(1,2) [symmetric]
    int_of_size_fits [OF assms(3)] int_of_size_fits [OF assms(4)]
  by (simp add: max_def)

lemma init_success:
  assumes "S = unat (sq_off_array p) + unat (p_sq_entries p) * sizeof_unsigned"
    and "C = unat (cq_off_cqes p) + unat (p_cq_entries p) * sizeof_cqe"
    and "S < 2 ^ 31" and "C < 2 ^ 31"
    and "0 \<le> r_fd r" and "r_params r = p"
    and "clear_ops sz ops_arg mem 0 (unat max_ops_arg) = Some mem1"
    and "r_sq_ptr r \<noteq> MAP_FAILED" and "r_sqes_ptr r \<noteq> MAP_FAILED"
    and "single_mmap p \<or> r_cq_ptr r \<noteq> MAP_FAILED"
  shows "\<exists>ioc'.
           io_context_init sz r os mem ioc ops_arg max_ops_arg =
             Some (True, ioc', mem1,
                   os\<lparr>fds := r_fd r # fds os,
                      maps := maps os
                        @ (if single_mmap p
                           then [\<lparr>m_addr = r_sq_ptr r, m_len = of_nat (max S C),
                                  m_fd = r_fd r, m_off = IORING_OFF_SQ_RING\<rparr>]
                           else [\<lparr>m_addr = r_sq_ptr r, m_len = of_nat S,
                                  m_fd = r_fd r, m_off = IORING_OFF_SQ_RING\<rparr>,
                                 \<lparr>m_addr = r_cq_ptr r, m_len = of_nat C,
                                  m_fd = r_fd r, m_off = IORING_OFF_CQ_RING\<rparr>])
                        @ [\<lparr>m_addr = r_sqes_ptr r,
                             m_len = of_nat (unat (p_sq_entries p) * sizeof_sqe),
                             m_fd = r_fd r, m_off = IORING_OFF_SQES\<rparr>]\<rparr>)"
proof (cases "single_mmap p")
  case True
  with assms(5-9) show ?thesis
    by (simp add: io_context_init_def io_uring_setup_def mmap_def Let_def
          ring_sizes_fit [OF assms(1-4)] size_of_int_nat)
next
  case False
  with assms(10) have "r_cq_ptr r \<noteq> MAP_FAILED" by simp
  with False assms(5-9) show ?thesis
    by (simp add: io_context_init_def io_uring_setup_def mmap_def Let_def
          ring_sizes_fit [OF assms(1-4)] size_of_int_nat)
qed

text \<open>
  C9.  With ring regions that fit an \<^verbatim>\<open>int\<close>, a setup in which every call succeeds
  leaves these mappings: with the single-mapping feature one ring mapping, of the larger
  of the two sizes, and the descriptor array; without it a submission-ring mapping, a
  completion-ring mapping and the descriptor array.  Each ring size is the offset the
  kernel reported plus the entry count it granted times the element size.
\<close>

theorem init_maps_rings:
  assumes "unat (sq_off_array p) + unat (p_sq_entries p) * sizeof_unsigned < 2 ^ 31"
    and "unat (cq_off_cqes p) + unat (p_cq_entries p) * sizeof_cqe < 2 ^ 31"
    and "0 \<le> r_fd r" and "r_params r = p"
    and "clear_ops sz ops_arg mem 0 (unat max_ops_arg) = Some mem1"
    and "r_sq_ptr r \<noteq> MAP_FAILED" and "r_sqes_ptr r \<noteq> MAP_FAILED"
    and "single_mmap p \<or> r_cq_ptr r \<noteq> MAP_FAILED"
  shows "\<exists>ioc'.
           io_context_init sz r os mem ioc ops_arg max_ops_arg =
             Some (True, ioc', mem1,
                   os\<lparr>fds := r_fd r # fds os,
                      maps := maps os
                        @ (if single_mmap p
                           then [\<lparr>m_addr = r_sq_ptr r,
                                  m_len = of_nat (max (unat (sq_off_array p)
                                                        + unat (p_sq_entries p) * sizeof_unsigned)
                                                      (unat (cq_off_cqes p)
                                                        + unat (p_cq_entries p) * sizeof_cqe)),
                                  m_fd = r_fd r, m_off = IORING_OFF_SQ_RING\<rparr>]
                           else [\<lparr>m_addr = r_sq_ptr r,
                                  m_len = of_nat (unat (sq_off_array p)
                                                  + unat (p_sq_entries p) * sizeof_unsigned),
                                  m_fd = r_fd r, m_off = IORING_OFF_SQ_RING\<rparr>,
                                 \<lparr>m_addr = r_cq_ptr r,
                                  m_len = of_nat (unat (cq_off_cqes p)
                                                  + unat (p_cq_entries p) * sizeof_cqe),
                                  m_fd = r_fd r, m_off = IORING_OFF_CQ_RING\<rparr>])
                        @ [\<lparr>m_addr = r_sqes_ptr r,
                             m_len = of_nat (unat (p_sq_entries p) * sizeof_sqe),
                             m_fd = r_fd r, m_off = IORING_OFF_SQES\<rparr>]\<rparr>)"
  by (rule init_success [OF refl refl assms])

theorem init_maps_rings_witness:
  "single_mmap ex_params \<and> \<not> single_mmap (ex_params\<lparr>p_features := 0\<rparr>)
   \<and> init_outcome (io_context_init 16 ex_reply ex_os (op_mem ex_ioc) ex_ptrs 0x1000 2) =
       Some (True, [3],
             [(0x7F0000000000, 1472, IORING_OFF_SQ_RING),
              (0x7F0000020000, 2048, IORING_OFF_SQES)])
   \<and> init_outcome (io_context_init 16 ex_reply_two_maps ex_os (op_mem ex_ioc) ex_ptrs 0x1000 2) =
       Some (True, [3],
             [(0x7F0000000000, 1472, IORING_OFF_SQ_RING),
              (0x7F0000010000, 1344, IORING_OFF_CQ_RING),
              (0x7F0000020000, 2048, IORING_OFF_SQES)])"
proof -
  let ?q = "ex_params\<lparr>p_features := 0\<rparr>"
  have s1: "single_mmap ex_params" and s2: "\<not> single_mmap ?q" by code_simp+
  have f1: "unat (sq_off_array ex_params) + unat (p_sq_entries ex_params) * sizeof_unsigned < 2 ^ 31"
    and f2: "unat (cq_off_cqes ex_params) + unat (p_cq_entries ex_params) * sizeof_cqe < 2 ^ 31"
    and g1: "unat (sq_off_array ?q) + unat (p_sq_entries ?q) * sizeof_unsigned < 2 ^ 31"
    and g2: "unat (cq_off_cqes ?q) + unat (p_cq_entries ?q) * sizeof_cqe < 2 ^ 31"
    by (simp_all add: ex_params_def sizeof_unsigned_def sizeof_cqe_def)
  have fd1: "0 \<le> r_fd ex_reply" and fd2: "0 \<le> r_fd ex_reply_two_maps"
    and p1: "r_params ex_reply = ex_params" and p2: "r_params ex_reply_two_maps = ?q"
    by (simp_all add: ex_reply_def ex_reply_two_maps_def)
  have cl: "clear_ops 16 0x1000 (op_mem ex_ioc) 0 (unat (2 :: u32)) =
      Some ((op_mem ex_ioc)(0x1000 \<mapsto> \<lparr>op_user = 0xA, op_type = IO_VOID\<rparr>,
                            0x1010 \<mapsto> \<lparr>op_user = 0, op_type = IO_VOID\<rparr>))"
  proof -
    have two: "unat (2 :: u32) = Suc (Suc 0)" by simp
    show ?thesis unfolding two by (simp add: ex_ioc_def)
  qed
  have m1: "r_sq_ptr ex_reply \<noteq> MAP_FAILED" "r_sqes_ptr ex_reply \<noteq> MAP_FAILED"
    "single_mmap ex_params \<or> r_cq_ptr ex_reply \<noteq> MAP_FAILED"
    and m2: "r_sq_ptr ex_reply_two_maps \<noteq> MAP_FAILED" "r_sqes_ptr ex_reply_two_maps \<noteq> MAP_FAILED"
    "single_mmap ?q \<or> r_cq_ptr ex_reply_two_maps \<noteq> MAP_FAILED"
    by (simp_all add: ex_reply_def ex_reply_two_maps_def MAP_FAILED_def s1)
  have v: "unat (sq_off_array ex_params) + unat (p_sq_entries ex_params) * sizeof_unsigned = 1472"
    "unat (cq_off_cqes ex_params) + unat (p_cq_entries ex_params) * sizeof_cqe = 1344"
    "unat (p_sq_entries ex_params) * sizeof_sqe = 2048"
    "unat (sq_off_array ?q) + unat (p_sq_entries ?q) * sizeof_unsigned = 1472"
    "unat (cq_off_cqes ?q) + unat (p_cq_entries ?q) * sizeof_cqe = 1344"
    "unat (p_sq_entries ?q) * sizeof_sqe = 2048"
    by (simp_all add: ex_params_def sizeof_unsigned_def sizeof_cqe_def sizeof_sqe_def)
  from init_maps_rings [OF f1 f2 fd1 p1 cl m1, of ex_os ex_ptrs]
  have a: "init_outcome (io_context_init 16 ex_reply ex_os (op_mem ex_ioc) ex_ptrs 0x1000 2) =
       Some (True, [3],
             [(0x7F0000000000, 1472, IORING_OFF_SQ_RING),
              (0x7F0000020000, 2048, IORING_OFF_SQES)])"
    by (auto simp: init_outcome_def s1 v ex_reply_def ex_os_def)
  from init_maps_rings [OF g1 g2 fd2 p2 cl m2, of ex_os ex_ptrs]
  have b: "init_outcome (io_context_init 16 ex_reply_two_maps ex_os (op_mem ex_ioc) ex_ptrs 0x1000 2) =
       Some (True, [3],
             [(0x7F0000000000, 1472, IORING_OFF_SQ_RING),
              (0x7F0000010000, 1344, IORING_OFF_CQ_RING),
              (0x7F0000020000, 2048, IORING_OFF_SQES)])"
    by (auto simp: init_outcome_def s2 v ex_reply_def ex_reply_two_maps_def ex_os_def)
  from s1 s2 a b show ?thesis by simp
qed

text \<open>
  \<^verbatim>\<open>io_context_init\<close> makes no call that releases anything: whatever the process held
  before, and the ring descriptor once \<^verbatim>\<open>io_uring_setup\<close> succeeded, it still holds
  when the function returns, whether with true or with false.
\<close>

lemma init_releases_nothing:
  assumes "io_context_init sz r os mem ioc ops_arg max_ops_arg = Some (ok, ioc', mem', os')"
  shows "set (fds os) \<subseteq> set (fds os')" and "set (maps os) \<subseteq> set (maps os')"
    and "0 \<le> r_fd r \<Longrightarrow> r_fd r \<in> set (fds os')"
  using assms
  by (auto simp: io_context_init_def io_uring_setup_def mmap_def Let_def
           split: option.splits if_splits prod.splits)

text \<open>
  C8.  Setup failures after something was acquired.  When the first \<^verbatim>\<open>mmap\<close> fails,
  \<^verbatim>\<open>io_context_init\<close> returns false with the ring descriptor 3 still open; when the
  completion-ring or the descriptor-array \<^verbatim>\<open>mmap\<close> fails, it returns false with the
  descriptor open and the submission-ring mapping still in place.
\<close>

theorem init_failure_keeps_resources:
  "init_outcome (io_context_init 16 ex_reply_sq_fails ex_os (op_mem ex_ioc) ex_ptrs 0x1000 2) =
     Some (False, [3], [])
   \<and> init_outcome (io_context_init 16 ex_reply_cq_fails ex_os (op_mem ex_ioc) ex_ptrs 0x1000 2) =
     Some (False, [3], [(0x7F0000000000, 1472, IORING_OFF_SQ_RING)])
   \<and> init_outcome (io_context_init 16 ex_reply_sqes_fails ex_os (op_mem ex_ioc) ex_ptrs 0x1000 2) =
     Some (False, [3], [(0x7F0000000000, 1472, IORING_OFF_SQ_RING)])"
  by code_simp

end
